theory Spec2Isabelle
  imports Complex_Main "HOL-Library.Char_ord" "HOL-Library.List_Lexorder"
begin

section \<open>Python values\<close>

text \<open>
  A Python float is a finite rational, an infinity or NaN. Comparison of finite floats,
  and of an int with a float, is the exact mathematical comparison in Python, so the
  finite values are kept as rationals.
\<close>

datatype pyfloat = Finite rat | PInf | NInf | NaN

text \<open>
  A \<open>datetime\<close> is naive or timezone-aware; the number is its position on the time line
  in microseconds (of the wall clock for a naive one, of UTC for an aware one).
\<close>

datatype datetime = Naive int | Aware int

text \<open>
  A \<open>decimal.Decimal\<close> is what the json-array reader gives for a number with a fraction
  or an exponent: a finite rational.
\<close>

datatype scalar =
    SBool bool
  | SInt int
  | SFloat pyfloat
  | SDecimal rat
  | SStr string
  | SDatetime datetime

datatype "value" =
    VNone
  | VS scalar
  | VList "value list"
  | VDict "(string \<times> value) list"

type_synonym record' = "(string \<times> value) list"

datatype error = TypeError | InvalidOperation | ValueError | ExternalError

text \<open>Truthiness, as \<open>if x:\<close> tests it.\<close>

fun truthy :: "value \<Rightarrow> bool" where
  "truthy VNone = False"
| "truthy (VS (SBool b)) = b"
| "truthy (VS (SInt i)) = (i \<noteq> 0)"
| "truthy (VS (SFloat f)) = (f \<noteq> Finite 0)"
| "truthy (VS (SDecimal q)) = (q \<noteq> 0)"
| "truthy (VS (SStr s)) = (s \<noteq> [])"
| "truthy (VS (SDatetime d)) = True"
| "truthy (VList xs) = (xs \<noteq> [])"
| "truthy (VDict kvs) = (kvs \<noteq> [])"

text \<open>\<open>if s:\<close> on an optional string: None and the empty string are false.\<close>

fun truthy_str :: "string option \<Rightarrow> bool" where
  "truthy_str None = False"
| "truthy_str (Some s) = (s \<noteq> [])"

subsection \<open>Dictionaries keep insertion order\<close>

fun dict_get :: "(string \<times> 'a) list \<Rightarrow> string \<Rightarrow> 'a option" where
  "dict_get [] k = None"
| "dict_get ((k', v) # kvs) k = (if k' = k then Some v else dict_get kvs k)"

text \<open>\<open>d[k] = v\<close>: an existing key keeps its position, a new key goes last.\<close>

fun dict_set :: "(string \<times> 'a) list \<Rightarrow> string \<Rightarrow> 'a \<Rightarrow> (string \<times> 'a) list" where
  "dict_set [] k v = [(k, v)]"
| "dict_set ((k', v') # kvs) k v =
     (if k' = k then (k, v) # kvs else (k', v') # dict_set kvs k v)"

text \<open>\<open>rec.get(k)\<close> on a record: None when the key is absent.\<close>

definition rec_get :: "record' \<Rightarrow> string \<Rightarrow> value" where
  "rec_get r k = (case dict_get r k of None \<Rightarrow> VNone | Some v \<Rightarrow> v)"

subsection \<open>Ordering comparisons\<close>

text \<open>The numeric reading of bool, int, float and Decimal operands.\<close>

fun num_of :: "scalar \<Rightarrow> pyfloat option" where
  "num_of (SBool b) = Some (Finite (if b then 1 else 0))"
| "num_of (SInt i) = Some (Finite (of_int i))"
| "num_of (SFloat f) = Some f"
| "num_of (SDecimal q) = Some (Finite q)"
| "num_of (SStr s) = None"
| "num_of (SDatetime d) = None"

fun num_le :: "pyfloat \<Rightarrow> pyfloat \<Rightarrow> bool" where
  "num_le NaN y = False"
| "num_le x NaN = False"
| "num_le NInf y = True"
| "num_le x PInf = True"
| "num_le PInf y = False"
| "num_le x NInf = False"
| "num_le (Finite a) (Finite b) = (a \<le> b)"

fun num_gt :: "pyfloat \<Rightarrow> pyfloat \<Rightarrow> bool" where
  "num_gt NaN y = False"
| "num_gt x NaN = False"
| "num_gt x PInf = False"
| "num_gt NInf y = False"
| "num_gt PInf y = True"
| "num_gt x NInf = True"
| "num_gt (Finite a) (Finite b) = (a > b)"

text \<open>
  \<open>a <= b\<close> on two scalars: \<open>None\<close> is the exception Python raises for operands that
  have no ordering: TypeError for a number and a string, a naive and an aware datetime,
  ..., and \<open>decimal.InvalidOperation\<close> for a Decimal and a float NaN.
\<close>

fun scalar_le :: "scalar \<Rightarrow> scalar \<Rightarrow> bool option" where
  "scalar_le (SStr a) (SStr b) = Some (a \<le> b)"
| "scalar_le (SDecimal q) (SFloat NaN) = None"
| "scalar_le (SFloat NaN) (SDecimal q) = None"
| "scalar_le (SDatetime (Naive a)) (SDatetime (Naive b)) = Some (a \<le> b)"
| "scalar_le (SDatetime (Aware a)) (SDatetime (Aware b)) = Some (a \<le> b)"
| "scalar_le a b =
     (case (num_of a, num_of b) of
        (Some x, Some y) \<Rightarrow> Some (num_le x y)
      | _ \<Rightarrow> None)"

fun scalar_gt :: "scalar \<Rightarrow> scalar \<Rightarrow> bool option" where
  "scalar_gt (SStr a) (SStr b) = Some (a > b)"
| "scalar_gt (SDecimal q) (SFloat NaN) = None"
| "scalar_gt (SFloat NaN) (SDecimal q) = None"
| "scalar_gt (SDatetime (Naive a)) (SDatetime (Naive b)) = Some (a > b)"
| "scalar_gt (SDatetime (Aware a)) (SDatetime (Aware b)) = Some (a > b)"
| "scalar_gt a b =
     (case (num_of a, num_of b) of
        (Some x, Some y) \<Rightarrow> Some (num_gt x y)
      | _ \<Rightarrow> None)"

text \<open>
  \<open>rv <= c\<close> and \<open>rv > c\<close> with a record value on the left and a cursor (a scalar) on
  the right: None, a list and a dict have no ordering against a scalar.
\<close>

fun py_le :: "value \<Rightarrow> scalar \<Rightarrow> bool option" where
  "py_le (VS a) c = scalar_le a c"
| "py_le v c = None"

fun py_gt :: "value \<Rightarrow> scalar \<Rightarrow> bool option" where
  "py_gt (VS a) c = scalar_gt a c"
| "py_gt v c = None"

text \<open>The exception a comparison without ordering raises.\<close>

fun comparison_error :: "value \<Rightarrow> scalar \<Rightarrow> error" where
  "comparison_error (VS (SDecimal q)) (SFloat NaN) = InvalidOperation"
| "comparison_error (VS (SFloat NaN)) (SDecimal q) = InvalidOperation"
| "comparison_error v c = TypeError"

section \<open>External collaborators\<close>

text \<open>
  The compiled regular expression object of Python's \<open>re\<close>: the three ways of applying it
  to a text.
\<close>

record regex =
  search :: "string \<Rightarrow> bool"
  match :: "string \<Rightarrow> bool"
  fullmatch :: "string \<Rightarrow> bool"

text \<open>
  What a directory listing of the storage backend returns: with detail, one info
  dictionary per entry; without, the entry names.
\<close>

datatype listing = Detailed "record' list" | Names "string list"

text \<open>
  The library functions the stream calls. Each is a parameter of the model; \<open>None\<close> is
  the exception the call raises.
  \<^item> \<open>isoparse\<close>: \<open>dateutil.parser.isoparse\<close>;
  \<^item> \<open>parse_float\<close>, \<open>parse_int\<close>: \<open>float(s)\<close> and \<open>int(s)\<close> on a string;
  \<^item> \<open>re_compile\<close>: \<open>re.compile\<close>;
  \<^item> \<open>urlparse\<close>: \<open>urllib.parse.urlparse\<close>, giving scheme, netloc and path;
  \<^item> \<open>open_files\<close>: the paths of \<open>fsspec.open_files(uri, ...)\<close>, in the backend's order;
  \<^item> \<open>listdir\<close>: \<open>fsspec.filesystem(scheme, **opts).listdir(dir, detail=True)\<close>, for the
    scheme, the uri the options are taken from, and the directory;
  \<^item> \<open>fetch\<close>: the whole content of a resource, \<open>smart_open(path, "rb").read()\<close>;
  \<^item> \<open>parse_csv\<close>: the rows pandas parses from a content under the stream's csv options
    and chunk size, and the error that ends them, if any;
  \<^item> \<open>read_jsonl\<close>, \<open>read_parquet\<close>: the records of a resource in that format, and the
    error that ends them, if any;
  \<^item> \<open>read_json\<close>: the items \<open>ijson.items\<close> finds in a resource, likewise;
  \<^item> \<open>utcnow_iso\<close>: what \<open>datetime.utcnow().isoformat()\<close> gives at the first, the second,
    ... reading of the clock.
\<close>

record env =
  isoparse :: "string \<Rightarrow> datetime option"
  parse_float :: "string \<Rightarrow> pyfloat option"
  parse_int :: "string \<Rightarrow> int option"
  re_compile :: "string \<Rightarrow> regex option"
  urlparse :: "string \<Rightarrow> (string \<times> string \<times> string) option"
  open_files :: "string \<Rightarrow> string list option"
  listdir :: "string \<Rightarrow> string \<Rightarrow> string \<Rightarrow> listing option"
  fetch :: "string \<Rightarrow> string option"
  parse_csv :: "string \<Rightarrow> record' list \<times> error option"
  read_jsonl :: "string \<Rightarrow> record' list \<times> error option"
  read_json :: "string \<Rightarrow> value list \<times> error option"
  read_parquet :: "string \<Rightarrow> record' list \<times> error option"
  utcnow_iso :: "nat \<Rightarrow> string"

section \<open>Module functions\<close>

definition glob_chars :: "char list" where
  "glob_chars = [CHR ''*'', CHR ''?'', CHR ''['', CHR '']'']"

definition looks_like_glob :: "string \<Rightarrow> bool" where
  "looks_like_glob uri = (\<exists>ch \<in> set glob_chars. ch \<in> set uri)"

fun is_iso_datetime :: "env \<Rightarrow> value \<Rightarrow> bool" where
  "is_iso_datetime E (VS (SStr s)) = (isoparse E s \<noteq> None)"
| "is_iso_datetime E v = False"

fun coerce_replication_value :: "env \<Rightarrow> value \<Rightarrow> value" where
  "coerce_replication_value E (VS (SStr s)) =
     (case isoparse E s of
        Some d \<Rightarrow> VS (SDatetime d)
      | None \<Rightarrow>
          (if CHR ''.'' \<in> set s
           then (case parse_float E s of Some f \<Rightarrow> VS (SFloat f) | None \<Rightarrow> VS (SStr s))
           else (case parse_int E s of Some i \<Rightarrow> VS (SInt i) | None \<Rightarrow> VS (SStr s))))"
| "coerce_replication_value E v = v"

definition merge_types :: "string set \<Rightarrow> string \<Rightarrow> string set" where
  "merge_types types new_type =
     insert new_type
       (if new_type = ''number'' \<and> ''integer'' \<in> types then types - {''integer''} else types)"

fun infer_type_from_value :: "env \<Rightarrow> value \<Rightarrow> string" where
  "infer_type_from_value E VNone = ''null''"
| "infer_type_from_value E (VS (SBool b)) = ''boolean''"
| "infer_type_from_value E (VS (SInt i)) = ''integer''"
| "infer_type_from_value E (VS (SFloat f)) = ''number''"
| "infer_type_from_value E (VDict kvs) = ''object''"
| "infer_type_from_value E (VList xs) = ''array''"
| "infer_type_from_value E (VS (SStr s)) =
     (if is_iso_datetime E (VS (SStr s)) then ''date-time'' else ''string'')"
| "infer_type_from_value E (VS (SDatetime d)) = ''string''"
| "infer_type_from_value E (VS (SDecimal q)) = ''string''"


section \<open>The stream\<close>

text \<open>
  The entries of \<open>stream_config\<close> the stream reads. An absent entry is \<open>None\<close>;
  \<open>keys\<close> and \<open>infer_samples\<close> carry their defaults (\<open>[]\<close> and 2000) when absent.
\<close>

record stream_config =
  name :: string
  uri :: "string option"
  uris :: "string list option"
  pattern :: "string option"
  format :: "string option"
  schema_override :: "value option"
  replication_key :: "string option"
  keys :: "string list"
  infer_samples :: int

text \<open>
  The state of a stream: its two caches, the calls made to the storage backend in the
  order they happened, and how many times the clock has been read.
\<close>

datatype io_event = Glob string | ListDir string | Read string

record stream_state =
  cached_paths :: "string list option"
  cached_file_contents :: "(string \<times> string) list"
  io_log :: "io_event list"
  clock_reads :: nat

definition log_io :: "io_event \<Rightarrow> stream_state \<Rightarrow> stream_state" where
  "log_io ev st = st\<lparr>io_log := io_log st @ [ev]\<rparr>"

subsection \<open>Path resolution\<close>

text \<open>\<open>s.split(c)\<close> for a one-character separator: never empty.\<close>

fun split_on :: "char \<Rightarrow> string \<Rightarrow> string list" where
  "split_on c [] = [[]]"
| "split_on c (x # xs) =
     (if x = c then [] # split_on c xs
      else (case split_on c xs of
              w # ws \<Rightarrow> (x # w) # ws
            | [] \<Rightarrow> [[x]]))"

text \<open>\<open>path.split('/')[-1]\<close>\<close>

definition basename :: "string \<Rightarrow> string" where
  "basename path = last (split_on CHR ''/'' path)"

definition endswith_slash :: "string \<Rightarrow> bool" where
  "endswith_slash s = (s \<noteq> [] \<and> last s = CHR ''/'')"

definition startswith_slash :: "string \<Rightarrow> bool" where
  "startswith_slash s = (s \<noteq> [] \<and> hd s = CHR ''/'')"

text \<open>
  \<open>[info["name"] for info in all_files_info if info.get("type") == "file"]\<close>, followed
  by \<open>n.startswith("/")\<close> on each name: a file entry without a name, or with a name that
  is no string, raises (\<open>None\<close>).
\<close>

fun file_names :: "record' list \<Rightarrow> string list option" where
  "file_names [] = Some []"
| "file_names (info # infos) =
     (if dict_get info ''type'' = Some (VS (SStr ''file''))
      then (case dict_get info ''name'' of
              Some (VS (SStr n)) \<Rightarrow>
                (case file_names infos of None \<Rightarrow> None | Some ns \<Rightarrow> Some (n # ns))
            | _ \<Rightarrow> None)
      else file_names infos)"

text \<open>
  The names a listing gives under \<open>remote_dir\<close>. A listing that is empty or has no detail
  is read a second time by the source (\<open>_fs.listdir(remote_dir)\<close>); the directory is
  taken not to change between the two calls.
\<close>

fun listing_names :: "string \<Rightarrow> listing \<Rightarrow> string list option" where
  "listing_names remote_dir (Detailed (info # infos)) = file_names (info # infos)"
| "listing_names remote_dir (Detailed []) = Some []"
| "listing_names remote_dir (Names basenames) =
     Some (map (\<lambda>bn. remote_dir @ ''/'' @ bn) (filter (\<lambda>bn. bn \<noteq> []) basenames))"

text \<open>
  The body of the \<open>try\<close> block of the directory branch, for the location with its
  trailing slash: \<open>None\<close> when anything in it raises.
\<close>

definition list_directory :: "env \<Rightarrow> string \<Rightarrow> stream_state
    \<Rightarrow> string list option \<times> stream_state" where
  "list_directory E u st =
     (case urlparse E u of
        None \<Rightarrow> (None, st)
      | Some (scheme, netloc, path) \<Rightarrow>
          (let remote_dir0 = (if path = [] then ''/'' else path);
               remote_dir = (if endswith_slash remote_dir0 then butlast remote_dir0
                             else remote_dir0)
           in case listdir E scheme u remote_dir of
                None \<Rightarrow> (None, log_io (ListDir u) st)
              | Some l \<Rightarrow>
                  (case listing_names remote_dir l of
                     None \<Rightarrow> (None, log_io (ListDir u) st)
                   | Some names \<Rightarrow>
                       (Some (map (\<lambda>n. scheme @ ''://'' @ netloc @
                                         (if startswith_slash n then n else ''/'' @ n))
                                  names),
                        log_io (ListDir u) st))))"

text \<open>The filter loop: a path is kept when the regex is found in its file name.\<close>

fun filter_paths :: "regex \<Rightarrow> string list \<Rightarrow> string list" where
  "filter_paths rx [] = []"
| "filter_paths rx (path # paths) =
     (if search rx (basename path) then path # filter_paths rx paths
      else filter_paths rx paths)"

text \<open>
  The resources of the single location \<open>u\<close>, before the pattern filter, with the call to
  the backend logged.
\<close>

definition locate :: "env \<Rightarrow> string option \<Rightarrow> string \<Rightarrow> stream_state
    \<Rightarrow> (error + string list) \<times> stream_state" where
  "locate E pat u st =
     (if looks_like_glob u then
        (case open_files E u of
           None \<Rightarrow> (Inl ExternalError, log_io (Glob u) st)
         | Some fs \<Rightarrow> (Inr (sort fs), log_io (Glob u) st))
      else if truthy_str pat then
        (let u' = (if endswith_slash u then u else u @ ''/'')
         in case list_directory E u' st of
              (None, st1) \<Rightarrow> (Inr [u'], st1)
            | (Some ps, st1) \<Rightarrow> (Inr ps, st1))
      else (Inr [u], st))"

definition iter_paths :: "env \<Rightarrow> stream_config \<Rightarrow> stream_state
    \<Rightarrow> (error + string list) \<times> stream_state" where
  "iter_paths E cfg st =
     (case cached_paths st of
        Some ps \<Rightarrow> (Inr ps, st)
      | None \<Rightarrow>
          (case uris cfg of
             Some (x # xs) \<Rightarrow> (Inr (x # xs), st\<lparr>cached_paths := Some (x # xs)\<rparr>)
           | _ \<Rightarrow>
               (if \<not> truthy_str (uri cfg) then (Inl ValueError, st)
                else
                  (case locate E (pattern cfg) (the (uri cfg)) st of
                     (Inl e, st1) \<Rightarrow> (Inl e, st1)
                   | (Inr paths, st1) \<Rightarrow>
                       (if truthy_str (pattern cfg) then
                          (case re_compile E (the (pattern cfg)) of
                             None \<Rightarrow> (Inl ExternalError, st1)
                           | Some rx \<Rightarrow>
                               (Inr (filter_paths rx paths),
                                st1\<lparr>cached_paths := Some (filter_paths rx paths)\<rparr>))
                        else (Inr paths, st1\<lparr>cached_paths := Some paths\<rparr>))))))"


subsection \<open>Format readers\<close>

text \<open>A non-finite float of a csv row becomes None.\<close>

fun sanitize :: "value \<Rightarrow> value" where
  "sanitize (VS (SFloat (Finite q))) = VS (SFloat (Finite q))"
| "sanitize (VS (SFloat f)) = VNone"
| "sanitize v = v"

definition sanitize_rec :: "record' \<Rightarrow> record'" where
  "sanitize_rec r = map (\<lambda>(k, v). (k, sanitize v)) r"

definition iter_csv :: "env \<Rightarrow> string \<Rightarrow> stream_state
    \<Rightarrow> (record' list \<times> error option) \<times> stream_state" where
  "iter_csv E path st =
     (case dict_get (cached_file_contents st) path of
        Some content \<Rightarrow>
          ((map sanitize_rec (fst (parse_csv E content)), snd (parse_csv E content)), st)
      | None \<Rightarrow>
          (case fetch E path of
             None \<Rightarrow> (([], Some ExternalError), log_io (Read path) st)
           | Some content \<Rightarrow>
               ((map sanitize_rec (fst (parse_csv E content)), snd (parse_csv E content)),
                (log_io (Read path) st)
                  \<lparr>cached_file_contents := dict_set (cached_file_contents st) path content\<rparr>)))"

definition iter_jsonl :: "env \<Rightarrow> string \<Rightarrow> stream_state
    \<Rightarrow> (record' list \<times> error option) \<times> stream_state" where
  "iter_jsonl E path st = (read_jsonl E path, log_io (Read path) st)"

text \<open>An item that is no object is wrapped as \<open>{"value": obj}\<close>.\<close>

fun wrap_item :: "value \<Rightarrow> record'" where
  "wrap_item (VDict kvs) = kvs"
| "wrap_item obj = [(''value'', obj)]"

definition iter_json_array :: "env \<Rightarrow> string \<Rightarrow> stream_state
    \<Rightarrow> (record' list \<times> error option) \<times> stream_state" where
  "iter_json_array E path st =
     ((map wrap_item (fst (read_json E path)), snd (read_json E path)),
      log_io (Read path) st)"

definition iter_parquet :: "env \<Rightarrow> string \<Rightarrow> stream_state
    \<Rightarrow> (record' list \<times> error option) \<times> stream_state" where
  "iter_parquet E path st = (read_parquet E path, log_io (Read path) st)"

text \<open>\<open>str.lower()\<close> on ASCII.\<close>

definition lower_char :: "char \<Rightarrow> char" where
  "lower_char c =
     (if CHR ''A'' \<le> c \<and> c \<le> CHR ''Z'' then char_of (of_char c + (32::nat)) else c)"

definition lower :: "string \<Rightarrow> string" where
  "lower s = map lower_char s"

text \<open>The dispatch on the format tag; an unknown tag raises.\<close>

definition open_reader :: "env \<Rightarrow> string \<Rightarrow> string \<Rightarrow> stream_state
    \<Rightarrow> (error + record' list \<times> error option) \<times> stream_state" where
  "open_reader E fmt p st =
     (if fmt = ''csv'' then (Inr (fst (iter_csv E p st)), snd (iter_csv E p st))
      else if fmt = ''jsonl'' then (Inr (fst (iter_jsonl E p st)), snd (iter_jsonl E p st))
      else if fmt = ''json'' then
        (Inr (fst (iter_json_array E p st)), snd (iter_json_array E p st))
      else if fmt = ''parquet'' then
        (Inr (fst (iter_parquet E p st)), snd (iter_parquet E p st))
      else (Inl ValueError, st))"

subsection \<open>The record generator and its consumer\<close>

text \<open>
  \<open>_iter_records_raw\<close> is a generator: it runs only as far as the loop that consumes it
  asks. The model drives it with the body of the consuming loop, which for each record
  yields a record onward, goes on to the next (\<open>continue\<close>), or raises.
\<close>

datatype outcome = Emit record' | Skip | Raise error

datatype stop = Exhausted | Stopped | Failed error

text \<open>\<open>limit is not None and count >= limit\<close>\<close>

fun limit_reached :: "int option \<Rightarrow> int \<Rightarrow> bool" where
  "limit_reached None count = False"
| "limit_reached (Some limit) count = (count \<ge> limit)"

text \<open>The records of one resource: the inner \<open>for rec in iterator\<close>.\<close>

fun drive :: "(record' \<Rightarrow> outcome) \<Rightarrow> int option \<Rightarrow> int \<Rightarrow> record' list
    \<Rightarrow> record' list \<times> stop" where
  "drive body limit count [] = ([], Exhausted)"
| "drive body limit count (r # rs) =
     (case body r of
        Raise e \<Rightarrow> ([], Failed e)
      | Skip \<Rightarrow>
          (if limit_reached limit (count + 1) then ([], Stopped)
           else drive body limit (count + 1) rs)
      | Emit r' \<Rightarrow>
          (if limit_reached limit (count + 1) then ([r'], Stopped)
           else (case drive body limit (count + 1) rs of
                   (out, s) \<Rightarrow> (r' # out, s))))"

text \<open>The outer \<open>for p in self._iter_paths()\<close>.\<close>

fun iter_records_loop :: "env \<Rightarrow> (record' \<Rightarrow> outcome) \<Rightarrow> string \<Rightarrow> int option
    \<Rightarrow> string list \<Rightarrow> int \<Rightarrow> stream_state
    \<Rightarrow> (record' list \<times> error option) \<times> stream_state" where
  "iter_records_loop E body fmt limit [] count st = (([], None), st)"
| "iter_records_loop E body fmt limit (p # ps) count st =
     (case open_reader E fmt p st of
        (Inl e, st1) \<Rightarrow> (([], Some e), st1)
      | (Inr (recs, err), st1) \<Rightarrow>
          (case drive body limit count recs of
             (out, Failed e) \<Rightarrow> ((out, Some e), st1)
           | (out, Stopped) \<Rightarrow> ((out, None), st1)
           | (out, Exhausted) \<Rightarrow>
               (case err of
                  Some e \<Rightarrow> ((out, Some e), st1)
                | None \<Rightarrow>
                    (case iter_records_loop E body fmt limit ps
                            (count + int (length recs)) st1 of
                       ((rest, e), st2) \<Rightarrow> ((out @ rest, e), st2)))))"

definition iter_records_raw :: "env \<Rightarrow> stream_config \<Rightarrow> (record' \<Rightarrow> outcome) \<Rightarrow> int option
    \<Rightarrow> stream_state \<Rightarrow> (record' list \<times> error option) \<times> stream_state" where
  "iter_records_raw E cfg body limit st =
     (case iter_paths E cfg st of
        (Inl e, st1) \<Rightarrow> (([], Some e), st1)
      | (Inr paths, st1) \<Rightarrow>
          iter_records_loop E body
            (lower (case format cfg of None \<Rightarrow> ''csv'' | Some f \<Rightarrow> f)) limit paths 0 st1)"


subsection \<open>Schema inference\<close>

type_synonym type_map = "(string \<times> string set) list"

text \<open>\<open>for k, v in rec.items()\<close>: the type of each value is merged into the field's set.\<close>

fun observe :: "env \<Rightarrow> type_map \<Rightarrow> record' \<Rightarrow> type_map" where
  "observe E tm [] = tm"
| "observe E tm ((k, v) # kvs) =
     observe E
       (dict_set tm k
          (merge_types (case dict_get tm k of None \<Rightarrow> {} | Some ts \<Rightarrow> ts)
             (infer_type_from_value E v)))
       kvs"

fun observe_all :: "env \<Rightarrow> type_map \<Rightarrow> record' list \<Rightarrow> type_map" where
  "observe_all E tm [] = tm"
| "observe_all E tm (r # rs) = observe_all E (observe E tm r) rs"

definition str_list :: "string list \<Rightarrow> value" where
  "str_list xs = VList (map (\<lambda>s. VS (SStr s)) xs)"

definition nullable_string :: "record'" where
  "nullable_string = [(''type'', str_list [''string'', ''null''])]"

definition nullable_datetime :: "record'" where
  "nullable_datetime =
     [(''type'', str_list [''string'', ''null'']), (''format'', VS (SStr ''date-time''))]"

text \<open>The schema of one field from the type tags seen for it.\<close>

definition property_of :: "string set \<Rightarrow> record'" where
  "property_of types =
     (if ''date-time'' \<in> types then
        (if ''null'' \<in> types then nullable_datetime
         else [(''type'', VS (SStr ''string'')), (''format'', VS (SStr ''date-time''))])
      else
        (let types' = (if ''integer'' \<in> types \<and> ''number'' \<in> types
                       then types - {''integer''} else types)
         in if types' = {} then nullable_string
            else if ''null'' \<in> types' then
              (let non_null_types = filter (\<lambda>t. t \<noteq> ''null'') (sorted_list_of_set types')
               in if length non_null_types = 1
                  then [(''type'', str_list [hd non_null_types, ''null''])]
                  else [(''type'', str_list (sorted_list_of_set types'))])
            else if card types' = 1 then [(''type'', VS (SStr (the_elem types')))]
            else [(''type'', str_list (sorted_list_of_set types'))]))"

text \<open>The replication key and the primary keys are given a property when they have none.\<close>

definition ensure_replication_key :: "string option \<Rightarrow> (string \<times> record') list
    \<Rightarrow> (string \<times> record') list" where
  "ensure_replication_key rk properties =
     (if truthy_str rk \<and> dict_get properties (the rk) = None then
        (if the rk = ''_sdc_extracted_at''
         then dict_set properties (the rk) nullable_datetime
         else dict_set properties (the rk) nullable_string)
      else properties)"

fun ensure_keys :: "string list \<Rightarrow> (string \<times> record') list \<Rightarrow> (string \<times> record') list" where
  "ensure_keys [] properties = properties"
| "ensure_keys (pk # pks) properties =
     ensure_keys pks
       (if dict_get properties pk = None then dict_set properties pk nullable_string
        else properties)"

text \<open>The fields whose type has no null, the extraction timestamp left out.\<close>

fun required_fields :: "(string \<times> record') list \<Rightarrow> string list" where
  "required_fields [] = []"
| "required_fields ((field_name, field_schema) # rest) =
     (if field_name = ''_sdc_extracted_at'' then required_fields rest
      else
        (case rec_get field_schema ''type'' of
           VS (SStr t) \<Rightarrow> field_name # required_fields rest
         | VList ts \<Rightarrow>
             (if VS (SStr ''null'') \<notin> set ts then field_name # required_fields rest
              else required_fields rest)
         | _ \<Rightarrow> required_fields rest))"

definition schema_properties :: "env \<Rightarrow> string option \<Rightarrow> string list \<Rightarrow> record' list
    \<Rightarrow> (string \<times> record') list" where
  "schema_properties E rk pks samples =
     ensure_keys pks
       (ensure_replication_key rk
          (map (\<lambda>(k, types). (k, property_of types)) (observe_all E [] samples)))"

definition build_schema :: "env \<Rightarrow> string option \<Rightarrow> string list \<Rightarrow> record' list \<Rightarrow> value" where
  "build_schema E rk pks samples =
     (let properties = schema_properties E rk pks samples;
          required = required_fields properties
      in VDict
           ([(''type'', VS (SStr ''object'')),
             (''additionalProperties'', VS (SBool True)),
             (''properties'', VDict (map (\<lambda>(k, d). (k, VDict d)) properties))]
            @ (if required \<noteq> [] then [(''required'', str_list required)] else [])))"

text \<open>
  Sampling: the loop appends each record and leaves at \<open>len(samples) >= limit\<close>, which is
  the generator's own \<open>count >= limit\<close>. An error while sampling is raised onward.
\<close>

definition infer_schema :: "env \<Rightarrow> stream_config \<Rightarrow> stream_state
    \<Rightarrow> (error + value) \<times> stream_state" where
  "infer_schema E cfg st =
     (case iter_records_raw E cfg Emit (Some (infer_samples cfg)) st of
        ((samples, Some e), st1) \<Rightarrow> (Inl e, st1)
      | ((samples, None), st1) \<Rightarrow>
          (Inr (build_schema E (replication_key cfg) (keys cfg) samples), st1))"

definition schema :: "env \<Rightarrow> stream_config \<Rightarrow> stream_state
    \<Rightarrow> (error + value) \<times> stream_state" where
  "schema E cfg st =
     (case schema_override cfg of
        None \<Rightarrow> infer_schema E cfg st
      | Some explicit \<Rightarrow> (if truthy explicit then (Inr explicit, st) else infer_schema E cfg st))"

subsection \<open>Records and the incremental filter\<close>

text \<open>The cursor as it is compared: a string that parses as a datetime becomes one.\<close>

fun start_val_cmp :: "env \<Rightarrow> scalar \<Rightarrow> scalar" where
  "start_val_cmp E (SStr s) =
     (case isoparse E s of Some d \<Rightarrow> SDatetime d | None \<Rightarrow> SStr s)"
| "start_val_cmp E c = c"

text \<open>The record with the extraction timestamp, when that is the replication key.\<close>

definition stamp :: "string option \<Rightarrow> string \<Rightarrow> record' \<Rightarrow> record'" where
  "stamp rk extraction_time r =
     (if rk = Some ''_sdc_extracted_at''
      then dict_set r ''_sdc_extracted_at'' (VS (SStr extraction_time))
      else r)"

text \<open>The body of the loop of \<open>get_records\<close>, for one record.\<close>

definition filter_record :: "env \<Rightarrow> string option \<Rightarrow> scalar option \<Rightarrow> string \<Rightarrow> record'
    \<Rightarrow> outcome" where
  "filter_record E rk start_val extraction_time r =
     (let r' = stamp rk extraction_time r
      in if truthy_str rk \<and> start_val \<noteq> None then
           (let rv = coerce_replication_value E (rec_get r' (the rk))
            in if rv = VNone then Emit r'
               else
                 (case py_le rv (start_val_cmp E (the start_val)) of
                    None \<Rightarrow> Raise (comparison_error rv (start_val_cmp E (the start_val)))
                  | Some True \<Rightarrow> Skip
                  | Some False \<Rightarrow> Emit r'))
         else Emit r')"

text \<open>
  \<open>starting\<close> is what \<open>get_starting_replication_key_value(context)\<close> returns; it is asked
  for only when a replication key is configured. The clock is read once, before the loop.
\<close>

definition get_records :: "env \<Rightarrow> stream_config \<Rightarrow> scalar option \<Rightarrow> stream_state
    \<Rightarrow> (record' list \<times> error option) \<times> stream_state" where
  "get_records E cfg starting st =
     (let start_val = (if truthy_str (replication_key cfg) then starting else None);
          extraction_time = utcnow_iso E (clock_reads st) @ ''Z''
      in iter_records_raw E cfg
           (filter_record E (replication_key cfg) start_val extraction_time) None
           (st\<lparr>clock_reads := clock_reads st + 1\<rparr>))"


section \<open>A concrete environment\<close>

text \<open>
  The regex compiled from a pattern that has no metacharacter: \<open>search\<close> finds the pattern
  anywhere in the text, \<open>match\<close> at its start, \<open>fullmatch\<close> as the whole text.
\<close>

fun is_prefix :: "string \<Rightarrow> string \<Rightarrow> bool" where
  "is_prefix [] t = True"
| "is_prefix (p # ps) [] = False"
| "is_prefix (p # ps) (c # cs) = (p = c \<and> is_prefix ps cs)"

fun contains :: "string \<Rightarrow> string \<Rightarrow> bool" where
  "contains p [] = (p = [])"
| "contains p (c # cs) = (is_prefix p (c # cs) \<or> contains p cs)"

definition literal_regex :: "string \<Rightarrow> regex" where
  "literal_regex p = \<lparr>search = contains p, match = is_prefix p, fullmatch = (\<lambda>t. t = p)\<rparr>"

text \<open>
  One environment for the examples: a backend \<open>sftp://host\<close> whose directory \<open>/data\<close>
  lists \<open>b.csv\<close>, \<open>a.csv\<close> and \<open>notes.txt\<close> in that order, and the values the library
  functions take at the inputs the examples use. The timestamps are microseconds since
  1970: \<open>2024-01-01T00:00:00Z\<close> is second 1704067200, \<open>2024-05-01T12:00:00Z\<close> is second
  1714564800. Patterns are literal. The clock reads 12:00:00 the first time and 12:00:07
  afterwards.
\<close>

definition sample_listing :: listing where
  "sample_listing = Detailed
     [[(''name'', VS (SStr ''/data/b.csv'')), (''type'', VS (SStr ''file''))],
      [(''name'', VS (SStr ''/data/a.csv'')), (''type'', VS (SStr ''file''))],
      [(''name'', VS (SStr ''/data/old'')), (''type'', VS (SStr ''directory''))],
      [(''name'', VS (SStr ''/data/notes.txt'')), (''type'', VS (SStr ''file''))]]"

definition sample_rows :: "string \<Rightarrow> record' list" where
  "sample_rows content =
     (if content = ''id,updated_at\<newline>1,2023-12-31\<newline>2,2024-02-01\<newline>3,\<newline>''
      then [[(''id'', VS (SInt 1)), (''updated_at'', VS (SStr ''2023-12-31''))],
            [(''id'', VS (SInt 2)), (''updated_at'', VS (SStr ''2024-02-01''))],
            [(''id'', VS (SInt 3)), (''updated_at'', VS (SFloat NaN))]]
      else [])"

definition sample_env :: env where
  "sample_env =
     \<lparr>isoparse = (\<lambda>s. if s = ''2024-01-01T00:00:00Z'' then Some (Aware 1704067200000000)
                       else if s = ''2024-05-01T12:00:00Z'' then Some (Aware 1714564800000000)
                       else if s = ''2023-12-31'' then Some (Naive 1703980800000000)
                       else if s = ''2024-01-01'' then Some (Naive 1704067200000000)
                       else if s = ''2024-02-01'' then Some (Naive 1706745600000000)
                       else None),
      parse_float = (\<lambda>s. if s = ''1.5'' then Some (Finite (3 / 2)) else None),
      parse_int = (\<lambda>s. if s = ''5'' then Some 5 else if s = ''10'' then Some 10 else None),
      re_compile = (\<lambda>p. Some (literal_regex p)),
      urlparse = (\<lambda>u. if u = ''sftp://host/data/'' then Some (''sftp'', ''host'', ''/data/'')
                       else None),
      open_files = (\<lambda>u. None),
      listdir = (\<lambda>scheme u dir. if scheme = ''sftp'' \<and> dir = ''/data''
                                  then Some sample_listing else None),
      fetch = (\<lambda>p. if p = ''sftp://host/data/a.csv''
                    then Some ''id,updated_at\<newline>1,2023-12-31\<newline>2,2024-02-01\<newline>3,\<newline>''
                    else None),
      parse_csv = (\<lambda>content. (sample_rows content, None)),
      read_jsonl = (\<lambda>p. ([], Some ExternalError)),
      read_json = (\<lambda>p. ([], Some ExternalError)),
      read_parquet = (\<lambda>p. ([], Some ExternalError)),
      utcnow_iso = (\<lambda>n. if n = 0 then ''2024-05-01T12:00:00'' else ''2024-05-01T12:00:07'')\<rparr>"

definition empty_state :: stream_state where
  "empty_state =
     \<lparr>cached_paths = None, cached_file_contents = [], io_log = [], clock_reads = 0\<rparr>"

text \<open>
  A stream over the single resource \<open>a.csv\<close>, with \<open>updated_at\<close> as replication key,
  and the same stream over the directory with the filename pattern \<open>csv\<close>.
\<close>

definition sample_config :: stream_config where
  "sample_config =
     \<lparr>name = ''example'', uri = Some ''sftp://host/data/a.csv'', uris = None,
      pattern = None, format = Some ''csv'', schema_override = None,
      replication_key = Some ''updated_at'', keys = [''id''], infer_samples = 2000\<rparr>"

definition directory_config :: stream_config where
  "directory_config = sample_config\<lparr>uri := Some ''sftp://host/data'', pattern := Some ''csv''\<rparr>"

text \<open>The rows of \<open>a.csv\<close> as its reader yields them, the missing value as None.\<close>

definition row1 :: "record'" where
  "row1 = [(''id'', VS (SInt 1)), (''updated_at'', VS (SStr ''2023-12-31''))]"

definition row2 :: "record'" where
  "row2 = [(''id'', VS (SInt 2)), (''updated_at'', VS (SStr ''2024-02-01''))]"

definition row3 :: "record'" where
  "row3 = [(''id'', VS (SInt 3)), (''updated_at'', VNone)]"

text \<open>The state of the stream once \<open>a.csv\<close> has been resolved and read.\<close>

definition read_state :: stream_state where
  "read_state =
     \<lparr>cached_paths = Some [''sftp://host/data/a.csv''],
      cached_file_contents =
        [(''sftp://host/data/a.csv'',
          ''id,updated_at\<newline>1,2023-12-31\<newline>2,2024-02-01\<newline>3,\<newline>'')],
      io_log = [Read ''sftp://host/data/a.csv''],
      clock_reads = 0\<rparr>"

definition extracted_config :: stream_config where
  "extracted_config = sample_config\<lparr>replication_key := Some ''_sdc_extracted_at''\<rparr>"

text \<open>The stamped rows, and the schema inferred for the stream with the extraction timestamp.\<close>

definition stamped :: "record' \<Rightarrow> record'" where
  "stamped r = r @ [(''_sdc_extracted_at'', VS (SStr ''2024-05-01T12:00:00Z''))]"

definition extracted_schema :: "record'" where
  "extracted_schema =
     [(''type'', VS (SStr ''object'')),
      (''additionalProperties'', VS (SBool True)),
      (''properties'',
       VDict
        [(''id'', VDict [(''type'', VS (SStr ''integer''))]),
         (''updated_at'',
          VDict [(''type'', VList [VS (SStr ''string''), VS (SStr ''null'')]),
                 (''format'', VS (SStr ''date-time''))]),
         (''_sdc_extracted_at'',
          VDict [(''type'', VList [VS (SStr ''string''), VS (SStr ''null'')]),
                 (''format'', VS (SStr ''date-time''))])]),
      (''required'', VList [VS (SStr ''id'')])]"

definition explicit_config :: stream_config where
  "explicit_config =
     sample_config\<lparr>schema_override := Some (VDict [(''type'', VS (SStr ''object''))])\<rparr>"

section \<open>Comparable values\<close>

text \<open>
  Two values are comparable when Python orders them: two strings, two datetimes that are
  both naive or both aware, or two numbers (bool, int, float, Decimal) none of which is
  NaN. NaN is unordered against every number: \<open>nan <= x\<close> and \<open>nan > x\<close> are both
  false, or raise when \<open>x\<close> is a Decimal.
\<close>

fun scalar_comparable :: "scalar \<Rightarrow> scalar \<Rightarrow> bool" where
  "scalar_comparable (SStr a) (SStr b) = True"
| "scalar_comparable (SDatetime (Naive a)) (SDatetime (Naive b)) = True"
| "scalar_comparable (SDatetime (Aware a)) (SDatetime (Aware b)) = True"
| "scalar_comparable a b =
     (case (num_of a, num_of b) of
        (Some x, Some y) \<Rightarrow> x \<noteq> NaN \<and> y \<noteq> NaN
      | _ \<Rightarrow> False)"

fun comparable :: "value \<Rightarrow> scalar \<Rightarrow> bool" where
  "comparable (VS a) c = scalar_comparable a c"
| "comparable v c = False"

text \<open>
  The coerced replication-key value \<open>rv\<close> of a record, as the loop of \<open>get_records\<close>
  computes it for the replication key \<open>k\<close> and the extraction time \<open>t\<close>.
\<close>

definition replication_value :: "env \<Rightarrow> string \<Rightarrow> string \<Rightarrow> record' \<Rightarrow> value" where
  "replication_value E k t r = coerce_replication_value E (rec_get (stamp (Some k) t r) k)"







text \<open>
  The regex compiled from \<open>.*\<close>: found in every text, and the whole of every text
  without a newline. A backend whose listing fails, with patterns literal but for \<open>.*\<close>,
  and the directory stream configured with its trailing slash.
\<close>

definition dot_star_regex :: regex where
  "dot_star_regex =
     \<lparr>search = (\<lambda>t. True), match = (\<lambda>t. True), fullmatch = (\<lambda>t. CHR 0x0A \<notin> set t)\<rparr>"

definition unlisted_env :: env where
  "unlisted_env =
     sample_env\<lparr>listdir := (\<lambda>scheme u dir. None),
                 re_compile := (\<lambda>p. Some (if p = ''.*'' then dot_star_regex
                                            else literal_regex p))\<rparr>"

definition slash_config :: stream_config where
  "slash_config = directory_config\<lparr>uri := Some ''sftp://host/data/''\<rparr>"

text \<open>A backend whose directory \<open>/data\<close> lists \<open>data.csv.bak\<close> and \<open>notes.txt\<close>.\<close>

definition backup_listing :: listing where
  "backup_listing = Detailed
     [[(''name'', VS (SStr ''/data/data.csv.bak'')), (''type'', VS (SStr ''file''))],
      [(''name'', VS (SStr ''/data/notes.txt'')), (''type'', VS (SStr ''file''))]]"

definition backup_env :: env where
  "backup_env = sample_env\<lparr>listdir := (\<lambda>scheme u dir. Some backup_listing)\<rparr>"

section \<open>Type merging\<close>

lemma property_of_type_cases:
  "(\<exists>h. rec_get (property_of types) ''type'' = str_list [h, ''null''])
   \<or> (\<exists>t. rec_get (property_of types) ''type'' = VS (SStr t))
   \<or> rec_get (property_of types) ''type'' =
       str_list (sorted_list_of_set
         (if ''integer'' \<in> types \<and> ''number'' \<in> types then types - {''integer''} else types))"
  unfolding property_of_def rec_get_def nullable_datetime_def nullable_string_def Let_def
  by auto

lemma str_list_mem: "VS (SStr s) \<in> set ts \<Longrightarrow> str_list xs = VList ts \<Longrightarrow> s \<in> set xs"
  by (auto simp: str_list_def)

lemma property_of_exclusive:
  assumes fin: "finite types" and ty: "rec_get (property_of types) ''type'' = VList ts"
  shows "\<not> (VS (SStr ''integer'') \<in> set ts \<and> VS (SStr ''number'') \<in> set ts)"
proof
  assume both: "VS (SStr ''integer'') \<in> set ts \<and> VS (SStr ''number'') \<in> set ts"
  let ?c = "if ''integer'' \<in> types \<and> ''number'' \<in> types then types - {''integer''} else types"
  have fin': "finite ?c" using fin by simp
  have excl: "\<not> (''integer'' \<in> ?c \<and> ''number'' \<in> ?c)"
    by auto
  from property_of_type_cases[of types] show False
  proof (elim disjE exE)
    fix h assume "rec_get (property_of types) ''type'' = str_list [h, ''null'']"
    with ty have e: "str_list [h, ''null''] = VList ts" by simp
    from both str_list_mem[OF _ e]
    have "''integer'' \<in> set [h, ''null'']" "''number'' \<in> set [h, ''null'']"
      by blast+
    then show False by auto
  next
    fix t assume "rec_get (property_of types) ''type'' = VS (SStr t)"
    with ty show False by simp
  next
    assume "rec_get (property_of types) ''type'' = str_list (sorted_list_of_set ?c)"
    with ty have e: "str_list (sorted_list_of_set ?c) = VList ts" by simp
    from both str_list_mem[OF _ e]
    have "''integer'' \<in> set (sorted_list_of_set ?c)" "''number'' \<in> set (sorted_list_of_set ?c)"
      by blast+
    with fin' excl show False by (simp del: set_sorted_list_of_set add: set_sorted_list_of_set[OF fin'])
  qed
qed

lemma finite_merge_types: "finite S \<Longrightarrow> finite (merge_types S t)"
  by (simp add: merge_types_def)

lemma dict_set_values:
  "(k', x) \<in> set (dict_set tm k v) \<Longrightarrow> x = v \<or> (k', x) \<in> set tm"
  by (induction tm) (auto split: if_splits)

lemma dict_get_mem: "dict_get tm k = Some v \<Longrightarrow> (k, v) \<in> set tm"
  by (induction tm) (auto split: if_splits)

lemma finite_observe:
  "\<forall>(k, ts) \<in> set tm. finite ts \<Longrightarrow> \<forall>(k, ts) \<in> set (observe E tm r). finite ts"
proof (induction r arbitrary: tm)
  case Nil
  then show ?case by simp
next
  case (Cons kv kvs)
  obtain k v where kv: "kv = (k, v)" by (cases kv)
  let ?old = "case dict_get tm k of None \<Rightarrow> {} | Some ts \<Rightarrow> ts"
  have "finite ?old"
    using Cons.prems by (auto split: option.splits dest: dict_get_mem)
  then have "finite (merge_types ?old (infer_type_from_value E v))"
    by (rule finite_merge_types)
  then have "\<forall>(k', ts) \<in> set (dict_set tm k (merge_types ?old (infer_type_from_value E v))). finite ts"
    using Cons.prems by (auto dest: dict_set_values)
  from Cons.IH[OF this] show ?case by (simp add: kv)
qed

lemma finite_observe_all:
  "\<forall>(k, ts) \<in> set tm. finite ts \<Longrightarrow> \<forall>(k, ts) \<in> set (observe_all E tm rs). finite ts"
proof (induction rs arbitrary: tm)
  case Nil
  then show ?case by simp
next
  case (Cons r rs)
  from Cons.prems have "\<forall>(k, ts) \<in> set (observe E tm r). finite ts"
    by (rule finite_observe)
  from Cons.IH[OF this] show ?case by simp
qed

text \<open>
  Claim C3, as stated: merging \<open>integer\<close> into a set that contains \<open>number\<close> is a no-op,
  so that no merged set contains both. It fails: \<open>_merge_types\<close> adds the new tag in every
  case, and \<open>{number}\<close> merged with \<open>integer\<close> holds both.
\<close>

theorem merge_types_integer_after_number:
  "merge_types {''number''} ''integer'' \<noteq> {''number''}
   \<and> ''integer'' \<in> merge_types {''number''} ''integer''
   \<and> ''number'' \<in> merge_types {''number''} ''integer''"
  by (simp add: merge_types_def)

text \<open>
  Claim C3, amended: merging \<open>number\<close> removes \<open>integer\<close> and adds \<open>number\<close>; merging
  \<open>integer\<close> adds it, whatever the set contains; merging any other tag into a set that
  does not hold both does not make it hold both; and the type list of a property built
  from sampled records never names both \<open>integer\<close> and \<open>number\<close>, because the schema
  builder drops \<open>integer\<close> from a set that holds both.
\<close>

theorem merge_types_absorption:
  "merge_types S ''number'' = insert ''number'' (S - {''integer''})
   \<and> merge_types S ''integer'' = insert ''integer'' S
   \<and> (t \<noteq> ''integer'' \<and> \<not> (''integer'' \<in> S \<and> ''number'' \<in> S)
        \<longrightarrow> \<not> (''integer'' \<in> merge_types S t \<and> ''number'' \<in> merge_types S t))
   \<and> ((k, types) \<in> set (observe_all E [] samples)
          \<and> rec_get (property_of types) ''type'' = VList ts
        \<longrightarrow> \<not> (VS (SStr ''integer'') \<in> set ts \<and> VS (SStr ''number'') \<in> set ts))"
proof (intro conjI impI)
  show "merge_types S ''number'' = insert ''number'' (S - {''integer''})"
    by (auto simp: merge_types_def)
  show "merge_types S ''integer'' = insert ''integer'' S"
    by (simp add: merge_types_def)
next
  assume "t \<noteq> ''integer'' \<and> \<not> (''integer'' \<in> S \<and> ''number'' \<in> S)"
  then show "\<not> (''integer'' \<in> merge_types S t \<and> ''number'' \<in> merge_types S t)"
    by (auto simp: merge_types_def)
next
  assume a: "(k, types) \<in> set (observe_all E [] samples)
             \<and> rec_get (property_of types) ''type'' = VList ts"
  have "\<forall>(k, ts) \<in> set (observe_all E [] samples). finite ts"
    by (rule finite_observe_all) simp
  with a have "finite types" by auto
  with a show "\<not> (VS (SStr ''integer'') \<in> set ts \<and> VS (SStr ''number'') \<in> set ts)"
    using property_of_exclusive by blast
qed

lemma observe_all_amount: "observe_all sample_env []
           [[(''amount'', VS (SFloat (Finite (3 / 2))))], [(''amount'', VS (SInt 2))],
            [(''amount'', VNone)]]
        = [(''amount'', {''null'', ''integer'', ''number''})]"
  by (simp add: merge_types_def insert_commute)

lemma property_of_amount: "rec_get (property_of {''null'', ''integer'', ''number''}) ''type''
          = VList [VS (SStr ''number''), VS (SStr ''null'')]"
  by code_simp

text \<open>
  The amended C3 at a field sampled as 1.5, then 2, then null: the merged set holds
  \<open>integer\<close> and \<open>number\<close>, the property is \<open>[number, null]\<close>.
\<close>

theorem merge_types_absorption_witness:
  "(''null'' \<noteq> ''integer'' \<and> \<not> (''integer'' \<in> {''number''} \<and> ''number'' \<in> {''number''}))
   \<and> \<not> (''integer'' \<in> merge_types {''number''} ''null''
          \<and> ''number'' \<in> merge_types {''number''} ''null'')
   \<and> ((''amount'', {''null'', ''integer'', ''number''})
        \<in> set (observe_all sample_env []
           [[(''amount'', VS (SFloat (Finite (3 / 2))))], [(''amount'', VS (SInt 2))],
            [(''amount'', VNone)]])
      \<and> rec_get (property_of {''null'', ''integer'', ''number''}) ''type''
        = VList [VS (SStr ''number''), VS (SStr ''null'')])
   \<and> \<not> (VS (SStr ''integer'') \<in> set [VS (SStr ''number''), VS (SStr ''null'')]
        \<and> VS (SStr ''number'') \<in> set [VS (SStr ''number''), VS (SStr ''null'')])"
proof -
  have h1: "''null'' \<noteq> ''integer'' \<and> \<not> (''integer'' \<in> {''number''} \<and> ''number'' \<in> {''number''})"
    by simp
  have h2: "(''amount'', {''null'', ''integer'', ''number''})
        \<in> set (observe_all sample_env []
           [[(''amount'', VS (SFloat (Finite (3 / 2))))], [(''amount'', VS (SInt 2))],
            [(''amount'', VNone)]])
      \<and> rec_get (property_of {''null'', ''integer'', ''number''}) ''type''
        = VList [VS (SStr ''number''), VS (SStr ''null'')]"
    unfolding observe_all_amount property_of_amount by simp
  show ?thesis
    using h1 h2
      merge_types_absorption[of "{''number''}" "''null''" "''amount''"
        "{''null'', ''integer'', ''number''}" sample_env
        "[[(''amount'', VS (SFloat (Finite (3 / 2))))], [(''amount'', VS (SInt 2))],
            [(''amount'', VNone)]]" "[VS (SStr ''number''), VS (SStr ''null'')]"]
    by blast
qed

section \<open>Path resolution\<close>

lemma filter_paths_eq: "filter_paths rx paths = filter (\<lambda>p. search rx (basename p)) paths"
  by (induction paths) simp_all

lemma split_on_no_sep: "c \<notin> set ys \<Longrightarrow> split_on c ys = [ys]"
  by (induction ys) auto

lemma split_on_not_Nil: "split_on c s \<noteq> []"
  by (induction s) (auto split: list.splits)

lemma last_split_on_append: "last (split_on c (xs @ c # ys)) = last (split_on c ys)"
proof (induction xs)
  case Nil
  then show ?case by (simp add: split_on_not_Nil)
next
  case (Cons x xs)
  show ?case
  proof (cases "x = c")
    case True
    with Cons show ?thesis by (simp add: split_on_not_Nil)
  next
    case False
    obtain w ws where sp: "split_on c (xs @ c # ys) = w # ws"
      using split_on_not_Nil[of c "xs @ c # ys"] by (cases "split_on c (xs @ c # ys)") auto
    have "ws \<noteq> []"
    proof
      assume "ws = []"
      with sp have "length (split_on c (xs @ c # ys)) = 1" by simp
      moreover have "length (split_on c (xs @ c # ys)) \<ge> 2"
        by (induction xs) (auto split: list.splits simp: Suc_le_eq split_on_not_Nil)
      ultimately show False by simp
    qed
    with sp False Cons show ?thesis by simp
  qed
qed

lemma basename_after_slash:
  "CHR ''/'' \<notin> set f \<Longrightarrow> basename (d @ ''/'' @ f) = f"
  by (simp add: basename_def last_split_on_append split_on_no_sep)

lemma basename_trailing_slash: "endswith_slash u \<Longrightarrow> basename u = []"
proof -
  assume "endswith_slash u"
  then obtain d where "u = d @ ''/'' @ []"
    by (metis append_butlast_last_id append_Nil2 append_Cons append_Nil endswith_slash_def)
  then show ?thesis using basename_after_slash[of "[]" d] by simp
qed

lemma listing_failure_general:
  assumes "cached_paths st = None" "uris cfg = None" "uri cfg = Some u" "u \<noteq> []"
    "\<not> looks_like_glob u" "pattern cfg = Some pat" "pat \<noteq> []"
    "re_compile E pat = Some rx"
    "list_directory E (if endswith_slash u then u else u @ ''/'') st = (None, st1)"
  shows "fst (iter_paths E cfg st)
         = Inr (if search rx [] then [if endswith_slash u then u else u @ ''/''] else [])"
proof -
  let ?u' = "if endswith_slash u then u else u @ ''/''"
  have e: "endswith_slash ?u'" by (simp add: endswith_slash_def)
  have "locate E (pattern cfg) u st = (Inr [?u'], st1)"
    using assms by (simp add: locate_def Let_def)
  then show ?thesis
    using assms basename_trailing_slash[OF e]
    by (simp add: iter_paths_def)
qed

lemma is_prefix_iff: "is_prefix p t \<longleftrightarrow> (\<exists>w. t = p @ w)"
  by (induction p t rule: is_prefix.induct) auto

lemma contains_iff: "contains p t \<longleftrightarrow> (\<exists>u w. t = u @ p @ w)"
proof (induction t)
  case Nil
  then show ?case by auto
next
  case (Cons c cs)
  have "(\<exists>u w. c # cs = u @ p @ w) \<longleftrightarrow> (\<exists>w. c # cs = p @ w) \<or> (\<exists>u w. cs = u @ p @ w)"
  proof
    assume "\<exists>u w. c # cs = u @ p @ w"
    then obtain u w where e: "c # cs = u @ p @ w" by blast
    show "(\<exists>w. c # cs = p @ w) \<or> (\<exists>u w. cs = u @ p @ w)"
    proof (cases u)
      case Nil
      with e show ?thesis by auto
    next
      case (Cons a u')
      with e have "cs = u' @ p @ w" by simp
      then show ?thesis by blast
    qed
  next
    assume "(\<exists>w. c # cs = p @ w) \<or> (\<exists>u w. cs = u @ p @ w)"
    then show "\<exists>u w. c # cs = u @ p @ w"
    proof
      assume "\<exists>w. c # cs = p @ w"
      then obtain w where "c # cs = [] @ p @ w" by auto
      then show ?thesis by blast
    next
      assume "\<exists>u w. cs = u @ p @ w"
      then obtain u w where "c # cs = (c # u) @ p @ w" by auto
      then show ?thesis by blast
    qed
  qed
  with Cons show ?case by (simp add: is_prefix_iff)
qed

lemma literal_regex_unanchored:
  "search (literal_regex pat) t
     \<longleftrightarrow> (\<exists>u v w. t = u @ v @ w \<and> fullmatch (literal_regex pat) v)"
  by (simp add: literal_regex_def contains_iff)

text \<open>
  Claim C10: for a stream with a filename pattern, path resolution compiles the
  configured pattern and keeps, of the paths its glob or directory branch found, exactly
  those in whose file name \<open>search\<close> finds the pattern. For a regex whose \<open>search\<close> is what
  Python's is, finding a match of the pattern anywhere in the text, a path is kept exactly
  when some part of its file name matches the pattern, not only the whole name.
\<close>

theorem pattern_filter_is_search:
  assumes "cached_paths st = None" and "uris cfg = None \<or> uris cfg = Some []"
    and "truthy_str (uri cfg)" and "pattern cfg = Some pat" and "pat \<noteq> []"
    and "re_compile E pat = Some rx"
    and "locate E (pattern cfg) (the (uri cfg)) st = (Inr paths, st1)"
  shows "\<exists>kept. fst (iter_paths E cfg st) = Inr kept
           \<and> (\<forall>p. p \<in> set kept \<longleftrightarrow> p \<in> set paths \<and> search rx (basename p))
           \<and> ((\<forall>t. search rx t \<longleftrightarrow> (\<exists>u v w. t = u @ v @ w \<and> fullmatch rx v))
                \<longrightarrow> (\<forall>p. p \<in> set kept
                          \<longleftrightarrow> p \<in> set paths
                              \<and> (\<exists>u v w. basename p = u @ v @ w \<and> fullmatch rx v)))"
proof -
  have "fst (iter_paths E cfg st) = Inr (filter (\<lambda>p. search rx (basename p)) paths)"
    using assms by (auto simp: iter_paths_def filter_paths_eq)
  then show ?thesis by auto
qed

lemma locate_backup:
  "locate backup_env (pattern directory_config) (the (uri directory_config)) empty_state
     = (Inr [''sftp://host/data/data.csv.bak'', ''sftp://host/data/notes.txt''],
        empty_state\<lparr>io_log := [ListDir ''sftp://host/data/'']\<rparr>)"
  by code_simp

lemma iter_paths_backup:
  "fst (iter_paths backup_env directory_config empty_state)
     = Inr [''sftp://host/data/data.csv.bak'']"
  by code_simp

text \<open>
  C10 on a directory that lists \<open>data.csv.bak\<close> and \<open>notes.txt\<close>, with the pattern
  \<open>csv\<close>: \<open>data.csv.bak\<close> is resolved, although the pattern is neither the whole name
  nor its start, and \<open>notes.txt\<close> is not.
\<close>

theorem pattern_filter_is_search_witness:
  "cached_paths empty_state = None
   \<and> (uris directory_config = None \<or> uris directory_config = Some [])
   \<and> truthy_str (uri directory_config)
   \<and> pattern directory_config = Some ''csv''
   \<and> re_compile backup_env ''csv'' = Some (literal_regex ''csv'')
   \<and> locate backup_env (pattern directory_config) (the (uri directory_config)) empty_state
       = (Inr [''sftp://host/data/data.csv.bak'', ''sftp://host/data/notes.txt''],
          empty_state\<lparr>io_log := [ListDir ''sftp://host/data/'']\<rparr>)
   \<and> fst (iter_paths backup_env directory_config empty_state)
       = Inr [''sftp://host/data/data.csv.bak'']
   \<and> ''sftp://host/data/data.csv.bak'' \<in> set [''sftp://host/data/data.csv.bak'']
   \<and> basename ''sftp://host/data/data.csv.bak'' = ''data.'' @ ''csv'' @ ''.bak''
   \<and> fullmatch (literal_regex ''csv'') ''csv''
   \<and> \<not> fullmatch (literal_regex ''csv'') ''data.csv.bak''
   \<and> \<not> match (literal_regex ''csv'') ''data.csv.bak''
   \<and> ''sftp://host/data/notes.txt'' \<notin> set [''sftp://host/data/data.csv.bak'']
   \<and> \<not> search (literal_regex ''csv'') (basename ''sftp://host/data/notes.txt'')"
proof -
  have h1: "cached_paths empty_state = None" by (simp add: empty_state_def)
  have h2: "uris directory_config = None \<or> uris directory_config = Some []"
    and h3: "truthy_str (uri directory_config)"
    and h4: "pattern directory_config = Some ''csv''"
    by (simp_all add: directory_config_def sample_config_def)
  have h5: "''csv'' \<noteq> []" by simp
  have h6: "re_compile backup_env ''csv'' = Some (literal_regex ''csv'')"
    by (simp add: backup_env_def sample_env_def)
  have un: "\<forall>t. search (literal_regex ''csv'') t
              \<longleftrightarrow> (\<exists>u v w. t = u @ v @ w \<and> fullmatch (literal_regex ''csv'') v)"
    using literal_regex_unanchored by blast
  have b: "basename ''sftp://host/data/data.csv.bak'' = ''data.'' @ ''csv'' @ ''.bak''"
    by (simp add: basename_def)
  have n: "\<not> search (literal_regex ''csv'') (basename ''sftp://host/data/notes.txt'')"
    by (simp add: basename_def literal_regex_def)
  from pattern_filter_is_search[OF h1 h2 h3 h4 h5 h6 locate_backup] obtain kept where
    k: "fst (iter_paths backup_env directory_config empty_state) = Inr kept"
    and sub: "(\<forall>t. search (literal_regex ''csv'') t
                \<longleftrightarrow> (\<exists>u v w. t = u @ v @ w \<and> fullmatch (literal_regex ''csv'') v))
         \<longrightarrow> (\<forall>p. p \<in> set kept
                \<longleftrightarrow> p \<in> set [''sftp://host/data/data.csv.bak'', ''sftp://host/data/notes.txt'']
                    \<and> (\<exists>u v w. basename p = u @ v @ w
                                 \<and> fullmatch (literal_regex ''csv'') v))"
    by blast
  from k iter_paths_backup have kept: "kept = [''sftp://host/data/data.csv.bak'']" by simp
  from sub un have "''sftp://host/data/data.csv.bak'' \<in> set kept
      \<longleftrightarrow> ''sftp://host/data/data.csv.bak''
            \<in> set [''sftp://host/data/data.csv.bak'', ''sftp://host/data/notes.txt'']
          \<and> (\<exists>u v w. basename ''sftp://host/data/data.csv.bak'' = u @ v @ w
                       \<and> fullmatch (literal_regex ''csv'') v)"
    by (rule mp[THEN spec])
  moreover have "\<exists>u v w. basename ''sftp://host/data/data.csv.bak'' = u @ v @ w
                       \<and> fullmatch (literal_regex ''csv'') v"
    by (rule exI[of _ "''data.''"], rule exI[of _ "''csv''"], rule exI[of _ "''.bak''"])
       (simp add: basename_def literal_regex_def)
  ultimately have inn: "''sftp://host/data/data.csv.bak'' \<in> set kept"
    by simp
  have c1: "fullmatch (literal_regex ''csv'') ''csv''"
    and c2: "\<not> fullmatch (literal_regex ''csv'') ''data.csv.bak''"
    and c3: "\<not> match (literal_regex ''csv'') ''data.csv.bak''"
    by (simp_all add: literal_regex_def)
  from inn kept show ?thesis
    using h1 h2 h3 h4 h6 locate_backup iter_paths_backup b n c1 c2 c3
    by simp
qed

text \<open>
  Claim C4, as stated: the pattern filter is applied in every branch, also to an explicit
  list of locations. It fails: with \<open>uris\<close> given, the list is returned as it is, and a
  location whose name does not match the pattern stays.
\<close>

theorem explicit_list_not_filtered:
  "fst (iter_paths sample_env
         (directory_config\<lparr>uris := Some [''sftp://host/data/notes.txt'']\<rparr>) empty_state)
     = Inr [''sftp://host/data/notes.txt'']
   \<and> pattern (directory_config\<lparr>uris := Some [''sftp://host/data/notes.txt'']\<rparr>) = Some ''csv''
   \<and> \<not> search (literal_regex ''csv'') (basename ''sftp://host/data/notes.txt'')"
  by code_simp

text \<open>
  Claim C4, amended: an explicit list of locations is resolved to itself, unfiltered;
  for a single location with a pattern, whatever the branch (glob or directory) found is
  filtered by the pattern on the file name, the kept paths staying in their order.
\<close>

theorem pattern_filter_single_location:
  assumes "cached_paths st = None"
  shows "(uris cfg = Some (x # xs)
            \<longrightarrow> iter_paths E cfg st = (Inr (x # xs), st\<lparr>cached_paths := Some (x # xs)\<rparr>))
    \<and> ((uris cfg = None \<or> uris cfg = Some []) \<and> truthy_str (uri cfg)
          \<and> pattern cfg = Some pat \<and> pat \<noteq> [] \<and> re_compile E pat = Some rx
          \<and> locate E (pattern cfg) (the (uri cfg)) st = (Inr paths, st1)
            \<longrightarrow> iter_paths E cfg st
                = (Inr (filter (\<lambda>p. search rx (basename p)) paths),
                   st1\<lparr>cached_paths := Some (filter (\<lambda>p. search rx (basename p)) paths)\<rparr>))"
  using assms by (auto simp: iter_paths_def filter_paths_eq)

lemma locate_directory_sample:
  "locate sample_env (pattern directory_config) (the (uri directory_config)) empty_state
     = (Inr [''sftp://host/data/b.csv'', ''sftp://host/data/a.csv'', ''sftp://host/data/notes.txt''],
        empty_state\<lparr>io_log := [ListDir ''sftp://host/data/'']\<rparr>)"
  by code_simp


text \<open>
  The amended C4 on the explicit list \<open>[notes.txt]\<close> and on the directory \<open>/data\<close> with
  the pattern \<open>csv\<close>.
\<close>

theorem pattern_filter_single_location_witness:
  "cached_paths empty_state = None
   \<and> uris (directory_config\<lparr>uris := Some [''sftp://host/data/notes.txt'']\<rparr>)
       = Some [''sftp://host/data/notes.txt'']
   \<and> iter_paths sample_env
         (directory_config\<lparr>uris := Some [''sftp://host/data/notes.txt'']\<rparr>) empty_state
       = (Inr [''sftp://host/data/notes.txt''],
          empty_state\<lparr>cached_paths := Some [''sftp://host/data/notes.txt'']\<rparr>)
   \<and> ((uris directory_config = None \<or> uris directory_config = Some [])
        \<and> truthy_str (uri directory_config)
        \<and> pattern directory_config = Some ''csv'' \<and> ''csv'' \<noteq> []
        \<and> re_compile sample_env ''csv'' = Some (literal_regex ''csv'')
        \<and> locate sample_env (pattern directory_config) (the (uri directory_config)) empty_state
            = (Inr [''sftp://host/data/b.csv'', ''sftp://host/data/a.csv'',
                    ''sftp://host/data/notes.txt''],
               empty_state\<lparr>io_log := [ListDir ''sftp://host/data/'']\<rparr>))
   \<and> iter_paths sample_env directory_config empty_state
       = (Inr [''sftp://host/data/b.csv'', ''sftp://host/data/a.csv''],
          empty_state\<lparr>io_log := [ListDir ''sftp://host/data/''],
            cached_paths := Some [''sftp://host/data/b.csv'', ''sftp://host/data/a.csv'']\<rparr>)"
proof -
  have h0: "cached_paths empty_state = None"
    by (simp add: empty_state_def)
  have h1: "uris (directory_config\<lparr>uris := Some [''sftp://host/data/notes.txt'']\<rparr>)
       = Some [''sftp://host/data/notes.txt'']"
    by simp
  have h2: "(uris directory_config = None \<or> uris directory_config = Some [])
        \<and> truthy_str (uri directory_config)
        \<and> pattern directory_config = Some ''csv'' \<and> ''csv'' \<noteq> []
        \<and> re_compile sample_env ''csv'' = Some (literal_regex ''csv'')"
    by (simp add: directory_config_def sample_config_def sample_env_def)
  have b: "filter (\<lambda>p. search (literal_regex ''csv'') (basename p))
             [''sftp://host/data/b.csv'', ''sftp://host/data/a.csv'',
              ''sftp://host/data/notes.txt'']
           = [''sftp://host/data/b.csv'', ''sftp://host/data/a.csv'']"
    by (simp add: basename_def literal_regex_def)
  show ?thesis
    using h0 h1 h2 locate_directory_sample b
      pattern_filter_single_location[OF h0,
        of "directory_config\<lparr>uris := Some [''sftp://host/data/notes.txt'']\<rparr>"
           "''sftp://host/data/notes.txt''" "[]" sample_env]
      pattern_filter_single_location[OF h0, of directory_config _ _ sample_env "''csv''"
        "literal_regex ''csv''"
        "[''sftp://host/data/b.csv'', ''sftp://host/data/a.csv'', ''sftp://host/data/notes.txt'']"
        "empty_state\<lparr>io_log := [ListDir ''sftp://host/data/'']\<rparr>"]
    by simp
qed

text \<open>
  Claim C6, as stated: when the listing of a directory-style location fails, path
  resolution falls back to a list holding exactly the location as configured. It fails:
  the filename pattern is applied to the fallback as to any other resource. Here the
  location is \<open>sftp://host/data/\<close>, the listing fails, the file name of the fallback is
  empty, the pattern \<open>csv\<close> is not found in it, and nothing is resolved.
\<close>

theorem listing_failure_fallback_filtered:
  "uri slash_config = Some ''sftp://host/data/''
   \<and> pattern slash_config = Some ''csv''
   \<and> listdir unlisted_env ''sftp'' ''sftp://host/data/'' ''/data'' = None
   \<and> iter_paths unlisted_env slash_config empty_state
       = (Inr [], empty_state\<lparr>io_log := [ListDir ''sftp://host/data/''],
                               cached_paths := Some []\<rparr>)"
  by code_simp

text \<open>
  Claim C6, amended: when a location is resolved as a directory (no glob metacharacter,
  filename pattern configured) and the listing fails, path resolution does not raise on
  that account: one fallback resource stands for the listing, the location itself when it
  ends with a slash, and the filename pattern is applied to it, so that the resolved list
  is that one resource when the pattern is found in its file name, and empty when not.
\<close>

theorem listing_failure_falls_back:
  assumes "cached_paths st = None" and "uris cfg = None \<or> uris cfg = Some []"
    and "uri cfg = Some u" and "u \<noteq> []" and "\<not> looks_like_glob u"
    and "pattern cfg = Some pat" and "pat \<noteq> []" and "re_compile E pat = Some rx"
    and "list_directory E (if endswith_slash u then u else u @ ''/'') st = (None, st1)"
  shows "\<exists>fb. (fb = u \<or> fb = u @ ''/'') \<and> (endswith_slash u \<longrightarrow> fb = u)
           \<and> iter_paths E cfg st
               = (Inr (if search rx (basename fb) then [fb] else []),
                  st1\<lparr>cached_paths := Some (if search rx (basename fb) then [fb] else [])\<rparr>)"
proof -
  let ?fb = "if endswith_slash u then u else u @ ''/''"
  have "locate E (pattern cfg) u st = (Inr [?fb], st1)"
    using assms by (simp add: locate_def Let_def)
  then have "iter_paths E cfg st
               = (Inr (if search rx (basename ?fb) then [?fb] else []),
                  st1\<lparr>cached_paths := Some (if search rx (basename ?fb) then [?fb] else [])\<rparr>)"
    using assms by (auto simp: iter_paths_def)
  moreover have "(?fb = u \<or> ?fb = u @ ''/'') \<and> (endswith_slash u \<longrightarrow> ?fb = u)"
    by simp
  ultimately show ?thesis by blast
qed

lemma list_directory_unlisted:
  "list_directory unlisted_env ''sftp://host/data/'' empty_state
     = (None, empty_state\<lparr>io_log := [ListDir ''sftp://host/data/'']\<rparr>)"
  by code_simp

lemma iter_paths_unlisted:
  "iter_paths unlisted_env slash_config empty_state
     = (Inr [], empty_state\<lparr>io_log := [ListDir ''sftp://host/data/''],
                             cached_paths := Some []\<rparr>)"
  "iter_paths unlisted_env (slash_config\<lparr>pattern := Some ''.*''\<rparr>) empty_state
     = (Inr [''sftp://host/data/''],
        empty_state\<lparr>io_log := [ListDir ''sftp://host/data/''],
                      cached_paths := Some [''sftp://host/data/'']\<rparr>)"
  by code_simp+

text \<open>
  The amended C6 on \<open>sftp://host/data/\<close> with a failing listing: with the pattern
  \<open>csv\<close> nothing is resolved, with the pattern \<open>.*\<close> the location is.
\<close>

theorem listing_failure_falls_back_witness:
  "cached_paths empty_state = None
   \<and> (uris slash_config = None \<or> uris slash_config = Some [])
   \<and> uri slash_config = Some ''sftp://host/data/''
   \<and> endswith_slash ''sftp://host/data/''
   \<and> list_directory unlisted_env ''sftp://host/data/'' empty_state
       = (None, empty_state\<lparr>io_log := [ListDir ''sftp://host/data/'']\<rparr>)
   \<and> re_compile unlisted_env ''csv'' = Some (literal_regex ''csv'')
   \<and> iter_paths unlisted_env slash_config empty_state
       = (Inr [], empty_state\<lparr>io_log := [ListDir ''sftp://host/data/''],
                               cached_paths := Some []\<rparr>)
   \<and> re_compile unlisted_env ''.*'' = Some dot_star_regex
   \<and> iter_paths unlisted_env (slash_config\<lparr>pattern := Some ''.*''\<rparr>) empty_state
       = (Inr [''sftp://host/data/''],
          empty_state\<lparr>io_log := [ListDir ''sftp://host/data/''],
                        cached_paths := Some [''sftp://host/data/'']\<rparr>)"
proof -
  have h1: "cached_paths empty_state = None" by (simp add: empty_state_def)
  have h2: "uris slash_config = None \<or> uris slash_config = Some []"
    "uris (slash_config\<lparr>pattern := Some ''.*''\<rparr>) = None
     \<or> uris (slash_config\<lparr>pattern := Some ''.*''\<rparr>) = Some []"
    and h3: "uri slash_config = Some ''sftp://host/data/''"
    "uri (slash_config\<lparr>pattern := Some ''.*''\<rparr>) = Some ''sftp://host/data/''"
    and h6: "pattern slash_config = Some ''csv''"
    "pattern (slash_config\<lparr>pattern := Some ''.*''\<rparr>) = Some ''.*''"
    by (simp_all add: slash_config_def directory_config_def sample_config_def)
  have h4: "''sftp://host/data/'' \<noteq> []" and h7: "''csv'' \<noteq> []" "''.*'' \<noteq> []" by simp_all
  have h5: "\<not> looks_like_glob ''sftp://host/data/''"
    by (simp add: looks_like_glob_def glob_chars_def)
  have h8: "re_compile unlisted_env ''csv'' = Some (literal_regex ''csv'')"
    "re_compile unlisted_env ''.*'' = Some dot_star_regex"
    by (simp_all add: unlisted_env_def sample_env_def)
  have e: "endswith_slash ''sftp://host/data/''" by (simp add: endswith_slash_def)
  have h9: "list_directory unlisted_env
              (if endswith_slash ''sftp://host/data/'' then ''sftp://host/data/''
               else ''sftp://host/data/'' @ ''/'') empty_state
            = (None, empty_state\<lparr>io_log := [ListDir ''sftp://host/data/'']\<rparr>)"
    using e list_directory_unlisted by simp
  note a = listing_failure_falls_back[OF h1 h2(1) h3(1) h4 h5 h6(1) h7(1) h8(1) h9]
  note b = listing_failure_falls_back[OF h1 h2(2) h3(2) h4 h5 h6(2) h7(2) h8(2) h9]
  have bn: "basename ''sftp://host/data/'' = []" by (simp add: basename_def)
  from a e have "iter_paths unlisted_env slash_config empty_state
      = (Inr (if search (literal_regex ''csv'') (basename ''sftp://host/data/'')
              then [''sftp://host/data/''] else []),
         empty_state\<lparr>io_log := [ListDir ''sftp://host/data/''],
           cached_paths := Some (if search (literal_regex ''csv'') (basename ''sftp://host/data/'')
                                 then [''sftp://host/data/''] else [])\<rparr>)"
    by blast
  then have a': "iter_paths unlisted_env slash_config empty_state
       = (Inr [], empty_state\<lparr>io_log := [ListDir ''sftp://host/data/''],
                               cached_paths := Some []\<rparr>)"
    by (simp add: bn literal_regex_def)
  from b e have "iter_paths unlisted_env (slash_config\<lparr>pattern := Some ''.*''\<rparr>) empty_state
      = (Inr (if search dot_star_regex (basename ''sftp://host/data/'')
              then [''sftp://host/data/''] else []),
         empty_state\<lparr>io_log := [ListDir ''sftp://host/data/''],
           cached_paths := Some (if search dot_star_regex (basename ''sftp://host/data/'')
                                 then [''sftp://host/data/''] else [])\<rparr>)"
    by blast
  then have b': "iter_paths unlisted_env (slash_config\<lparr>pattern := Some ''.*''\<rparr>) empty_state
       = (Inr [''sftp://host/data/''],
          empty_state\<lparr>io_log := [ListDir ''sftp://host/data/''],
                        cached_paths := Some [''sftp://host/data/'']\<rparr>)"
    by (simp add: dot_star_regex_def)
  show ?thesis
    using a' b' h1 h2(1) h3(1) e h8 list_directory_unlisted
    by simp
qed

text \<open>
  Where the location has no trailing slash, the fallback is the location with a slash
  appended, whose file name is empty: \<open>sftp://host/data.csv\<close> is not resolved although
  the pattern \<open>csv\<close> is found in its file name.
\<close>

lemma listing_failure_slash_appended:
  "fst (iter_paths unlisted_env
          (directory_config\<lparr>uri := Some ''sftp://host/data.csv''\<rparr>) empty_state) = Inr []
   \<and> search (literal_regex ''csv'') (basename ''sftp://host/data.csv'')"
  by code_simp

text \<open>
  Claim C7 says that the files of a directory are resolved in sorted order whatever the
  order of the listing. Here the backend lists \<open>b.csv\<close> before \<open>a.csv\<close>, and they are
  resolved in that order.
\<close>

theorem directory_listing_order_kept:
  "listdir sample_env ''sftp'' ''sftp://host/data/'' ''/data'' = Some sample_listing
   \<and> fst (iter_paths sample_env directory_config empty_state)
       = Inr [''sftp://host/data/b.csv'', ''sftp://host/data/a.csv'']
   \<and> sort [''sftp://host/data/b.csv'', ''sftp://host/data/a.csv'']
       = [''sftp://host/data/a.csv'', ''sftp://host/data/b.csv'']"
  by code_simp

section \<open>The record loop\<close>

lemma drive_emitted:
  "r' \<in> set (fst (drive body limit count recs)) \<Longrightarrow> \<exists>r \<in> set recs. body r = Emit r'"
proof (induction recs arbitrary: count)
  case Nil
  then show ?case by simp
next
  case (Cons r recs)
  show ?case
  proof (cases "body r")
    case (Emit x)
    obtain out s where d: "drive body limit (count + 1) recs = (out, s)"
      by (cases "drive body limit (count + 1) recs")
    from Cons.prems Emit d have "r' = x \<or> r' \<in> set out"
      by (auto split: if_splits)
    then show ?thesis
    proof
      assume "r' = x"
      with Emit show ?thesis by simp
    next
      assume "r' \<in> set out"
      with d have "r' \<in> set (fst (drive body limit (count + 1) recs))" by simp
      from Cons.IH[OF this] show ?thesis by auto
    qed
  next
    case Skip
    with Cons show ?thesis by (auto split: if_splits)
  next
    case (Raise e)
    with Cons show ?thesis by simp
  qed
qed

lemma iter_records_loop_emitted:
  "r' \<in> set (fst (fst (iter_records_loop E body fmt limit ps count st)))
     \<Longrightarrow> \<exists>r. body r = Emit r'"
proof (induction ps arbitrary: count st)
  case Nil
  then show ?case by simp
next
  case (Cons p ps)
  obtain res st1 where o: "open_reader E fmt p st = (res, st1)" by (cases "open_reader E fmt p st")
  show ?case
  proof (cases res)
    case (Inl e)
    with Cons.prems o show ?thesis by simp
  next
    case (Inr re)
    obtain recs err where re: "re = (recs, err)" by (cases re)
    obtain out s where d: "drive body limit count recs = (out, s)"
      by (cases "drive body limit count recs")
    have outp: "\<And>x. x \<in> set out \<Longrightarrow> \<exists>r. body r = Emit x"
      using drive_emitted[of _ body limit count recs] d by auto
    show ?thesis
    proof (cases s)
      case Exhausted
      show ?thesis
      proof (cases err)
        case None
        obtain rest e st2 where l: "iter_records_loop E body fmt limit ps (count + int (length recs)) st1 = ((rest, e), st2)"
          by (metis surj_pair)
        from Cons.prems o Inr re d Exhausted None l
        have "r' \<in> set out \<or> r' \<in> set rest" by auto
        then show ?thesis
        proof
          assume "r' \<in> set out" then show ?thesis by (rule outp)
        next
          assume "r' \<in> set rest"
          with l have "r' \<in> set (fst (fst (iter_records_loop E body fmt limit ps (count + int (length recs)) st1)))"
            by simp
          then show ?thesis by (rule Cons.IH)
        qed
      next
        case (Some e)
        with Cons.prems o Inr re d Exhausted outp show ?thesis by auto
      qed
    next
      case Stopped
      with Cons.prems o Inr re d outp show ?thesis by auto
    next
      case (Failed e)
      with Cons.prems o Inr re d outp show ?thesis by auto
    qed
  qed
qed

lemma iter_records_raw_emitted:
  "r' \<in> set (fst (fst (iter_records_raw E cfg body limit st))) \<Longrightarrow> \<exists>r. body r = Emit r'"
  unfolding iter_records_raw_def
  by (auto split: prod.splits sum.splits dest: iter_records_loop_emitted)








section \<open>The incremental filter\<close>

lemma num_le_gt: "x \<noteq> NaN \<Longrightarrow> y \<noteq> NaN \<Longrightarrow> num_gt x y = (\<not> num_le x y)"
  by (cases x; cases y) auto

lemma numeric_le_gt:
  assumes "num_of a = Some x" and "num_of c = Some y" and "x \<noteq> NaN" and "y \<noteq> NaN"
  shows "scalar_le a c = Some (num_le x y) \<and> scalar_gt a c = Some (num_gt x y)"
  using assms by (cases a; cases c; cases x; cases y; simp)

lemma scalar_comparable_le_gt:
  assumes "scalar_comparable a c"
  shows "\<exists>b. scalar_le a c = Some b \<and> scalar_gt a c = Some (\<not> b)"
proof (cases "num_of a")
  case None
  then show ?thesis
    using assms
    by (induction a c rule: scalar_comparable.induct) (auto split: option.splits)
next
  case (Some x)
  with assms obtain y where y: "num_of c = Some y" "x \<noteq> NaN" "y \<noteq> NaN"
    by (induction a c rule: scalar_comparable.induct) (auto split: option.splits)
  from numeric_le_gt[OF Some y] num_le_gt[OF y(2,3)] show ?thesis by simp
qed

lemma comparable_le_gt:
  "comparable v c \<Longrightarrow> \<exists>b. py_le v c = Some b \<and> py_gt v c = Some (\<not> b)"
  by (cases v) (auto dest: scalar_comparable_le_gt)


lemma filter_record_none:
  "coerce_replication_value E (rec_get (stamp (Some k) t r) k) = VNone
     \<Longrightarrow> filter_record E (Some k) (Some c) t r = Emit (stamp (Some k) t r)"
  by (simp add: filter_record_def Let_def)

lemma filter_record_comparable:
  assumes "k \<noteq> []"
    and "comparable (coerce_replication_value E (rec_get (stamp (Some k) t r) k)) (start_val_cmp E c)"
  shows "filter_record E (Some k) (Some c) t r
         = (if py_gt (coerce_replication_value E (rec_get (stamp (Some k) t r) k))
                 (start_val_cmp E c) = Some True
            then Emit (stamp (Some k) t r) else Skip)"
proof -
  let ?rv = "coerce_replication_value E (rec_get (stamp (Some k) t r) k)"
  from comparable_le_gt[OF assms(2)] obtain b where
    b: "py_le ?rv (start_val_cmp E c) = Some b" "py_gt ?rv (start_val_cmp E c) = Some (\<not> b)"
    by blast
  from assms(2) have "?rv \<noteq> VNone" by auto
  with b assms(1) show ?thesis
    by (cases b) (simp_all add: filter_record_def Let_def)
qed

lemma filter_record_emits_stamped:
  "filter_record E rk sv t r = Emit r' \<Longrightarrow> r' = stamp rk t r"
  by (auto simp: filter_record_def Let_def split: if_splits option.splits bool.splits)

lemma dict_get_dict_set: "dict_get (dict_set d k v) k = Some v"
  by (induction d) auto

lemma stamp_extracted_at:
  "dict_get (stamp (Some ''_sdc_extracted_at'') t r) ''_sdc_extracted_at'' = Some (VS (SStr t))"
  by (simp add: stamp_def dict_get_dict_set)













text \<open>
  A NaN key value is not comparable with a numeric cursor; against a bool, an int or a
  float \<open>nan <= c\<close> is false, and the record is yielded, as a record without key value
  is.
\<close>

lemma nan_key_value_yielded:
  assumes "k \<noteq> []" and "replication_value E k t r = VS (SFloat NaN)"
    and "num_of (start_val_cmp E c) = Some y"
    and "\<forall>q. start_val_cmp E c \<noteq> SDecimal q"
  shows "filter_record E (Some k) (Some c) t r = Emit (stamp (Some k) t r)"
    and "\<not> comparable (replication_value E k t r) (start_val_cmp E c)"
  using assms
  by (cases "start_val_cmp E c"; simp add: filter_record_def replication_value_def Let_def)+

text \<open>
  Claim C2 says that a cursor that arrives as a string is coerced as a record's value is:
  datetime, then number, then string. Here the cursor is the string \<open>5\<close> and the
  record's key value the string \<open>10\<close>: the record's value becomes the int 10, the cursor
  stays the string \<open>5\<close>, and comparing them raises. With the cursor as the int 5 the
  record is yielded.
\<close>

theorem numeric_cursor_string_not_coerced:
  "coerce_replication_value sample_env (VS (SStr ''10'')) = VS (SInt 10)
   \<and> coerce_replication_value sample_env (VS (SStr ''5'')) = VS (SInt 5)
   \<and> start_val_cmp sample_env (SStr ''5'') = SStr ''5''
   \<and> filter_record sample_env (Some ''id'') (Some (SStr ''5'')) ''2024-05-01T12:00:00Z''
        [(''id'', VS (SStr ''10''))] = Raise TypeError
   \<and> filter_record sample_env (Some ''id'') (Some (SInt 5)) ''2024-05-01T12:00:00Z''
        [(''id'', VS (SStr ''10''))] = Emit [(''id'', VS (SStr ''10''))]"
  by code_simp

section \<open>The extraction timestamp and the schema\<close>

text \<open>Nothing but \<open>get_records\<close> reads the clock.\<close>

lemma log_io_clock: "clock_reads (log_io ev st) = clock_reads st"
  by (simp add: log_io_def)

lemma list_directory_clock: "clock_reads (snd (list_directory E u st)) = clock_reads st"
  by (simp add: list_directory_def Let_def log_io_clock split: option.splits prod.splits)

lemma locate_clock: "clock_reads (snd (locate E pat u st)) = clock_reads st"
proof -
  have "clock_reads st1 = clock_reads st" if "list_directory E u' st = (res, st1)" for u' res st1
    using list_directory_clock[of E u' st] that by simp
  then show ?thesis
    by (auto simp: locate_def Let_def log_io_clock split: option.splits prod.splits)
qed

lemma iter_paths_clock: "clock_reads (snd (iter_paths E cfg st)) = clock_reads st"
proof -
  have "clock_reads st1 = clock_reads st" if "locate E pat u st = (res, st1)" for pat u res st1
    using locate_clock[of E pat u st] that by simp
  then show ?thesis
    by (auto simp: iter_paths_def split: option.splits prod.splits sum.splits list.splits)
qed

lemma open_reader_clock: "clock_reads (snd (open_reader E fmt p st)) = clock_reads st"
  by (simp add: open_reader_def iter_csv_def iter_jsonl_def iter_json_array_def
      iter_parquet_def log_io_clock split: option.splits)

lemma iter_records_loop_clock:
  "clock_reads (snd (iter_records_loop E body fmt limit ps count st)) = clock_reads st"
proof (induction ps arbitrary: count st)
  case Nil
  then show ?case by simp
next
  case (Cons p ps)
  obtain res st1 where o: "open_reader E fmt p st = (res, st1)"
    by (cases "open_reader E fmt p st")
  with open_reader_clock[of E fmt p st] have c: "clock_reads st1 = clock_reads st" by simp
  have ih: "clock_reads st2 = clock_reads st"
    if "iter_records_loop E body fmt limit ps n st1 = (res', st2)" for n res' st2
    using Cons.IH[of n st1] c that by simp
  show ?case
    using o c ih
    by (auto split: sum.splits prod.splits stop.splits option.splits)
qed

lemma iter_records_raw_clock:
  "clock_reads (snd (iter_records_raw E cfg body limit st)) = clock_reads st"
proof -
  obtain res st1 where p: "iter_paths E cfg st = (res, st1)" by (cases "iter_paths E cfg st")
  with iter_paths_clock[of E cfg st] have "clock_reads st1 = clock_reads st" by simp
  with p show ?thesis
    by (auto simp: iter_records_raw_def iter_records_loop_clock split: sum.splits)
qed

lemma get_records_stamped:
  assumes "r \<in> set (fst (fst (get_records E cfg starting st)))"
  shows "\<exists>x. r = stamp (replication_key cfg) (utcnow_iso E (clock_reads st) @ ''Z'') x"
proof -
  from assms obtain x sv where
    "filter_record E (replication_key cfg) sv (utcnow_iso E (clock_reads st) @ ''Z'') x = Emit r"
    unfolding get_records_def Let_def by (blast dest: iter_records_raw_emitted)
  then show ?thesis by (blast dest: filter_record_emits_stamped)
qed

lemma required_fields_skip_extracted_at:
  "''_sdc_extracted_at'' \<notin> set (required_fields properties)"
  by (induction properties rule: required_fields.induct)
     (auto split: "value.splits" scalar.splits)

lemma str_list_set: "VS (SStr s) \<in> set (map (\<lambda>s. VS (SStr s)) xs) \<longleftrightarrow> s \<in> set xs"
  by auto

lemma build_schema_required:
  assumes "build_schema E rk pks samples = VDict d"
    and "dict_get d ''required'' = Some (VList req)"
  shows "VS (SStr ''_sdc_extracted_at'') \<notin> set req"
proof -
  let ?req = "required_fields (schema_properties E rk pks samples)"
  from assms have "req = map (\<lambda>s. VS (SStr s)) ?req"
    by (auto simp: build_schema_def Let_def str_list_def split: if_splits)
  then show ?thesis
    using required_fields_skip_extracted_at[of "schema_properties E rk pks samples"]
    by auto
qed

lemma schema_inferred:
  assumes "schema_override cfg = None" and "fst (schema E cfg st) = Inr sch"
  shows "\<exists>samples. sch = build_schema E (replication_key cfg) (keys cfg) samples"
  using assms
  by (auto simp: schema_def infer_schema_def split: prod.splits option.splits)

lemma dict_get_dict_set_other: "k' \<noteq> k \<Longrightarrow> dict_get (dict_set d k v) k' = dict_get d k'"
  by (induction d) auto

lemma observe_absent:
  "dict_get tm k = None \<Longrightarrow> dict_get r k = None \<Longrightarrow> dict_get (observe E tm r) k = None"
proof (induction r arbitrary: tm)
  case Nil
  then show ?case by simp
next
  case (Cons kv kvs)
  obtain k1 v where kv: "kv = (k1, v)" by (cases kv)
  with Cons.prems have ne: "k1 \<noteq> k" and rest: "dict_get kvs k = None"
    by (auto split: if_splits)
  let ?tm = "dict_set tm k1 (merge_types (case dict_get tm k1 of None \<Rightarrow> {} | Some ts \<Rightarrow> ts)
             (infer_type_from_value E v))"
  have "dict_get ?tm k = None"
    using ne Cons.prems(1) by (simp add: dict_get_dict_set_other)
  from Cons.IH[OF this rest] show ?case by (simp add: kv)
qed

lemma observe_all_absent:
  "dict_get tm k = None \<Longrightarrow> \<forall>r \<in> set rs. dict_get r k = None
     \<Longrightarrow> dict_get (observe_all E tm rs) k = None"
  by (induction rs arbitrary: tm) (simp_all add: observe_absent)

lemma dict_get_map_values:
  "dict_get (map (\<lambda>(k, x). (k, f x)) d) k = map_option f (dict_get d k)"
  by (induction d) auto

lemma ensure_keys_keeps:
  "dict_get properties k = Some v \<Longrightarrow> dict_get (ensure_keys pks properties) k = Some v"
proof (induction pks arbitrary: properties)
  case Nil
  then show ?case by simp
next
  case (Cons pk pks)
  have "dict_get (if dict_get properties pk = None
                  then dict_set properties pk nullable_string else properties) k = Some v"
    using Cons.prems by (cases "pk = k") (auto simp: dict_get_dict_set_other)
  from Cons.IH[OF this] show ?case by simp
qed

lemma extracted_at_property_when_absent:
  assumes "\<forall>r \<in> set samples. dict_get r ''_sdc_extracted_at'' = None"
  shows "dict_get (schema_properties E (Some ''_sdc_extracted_at'') pks samples)
           ''_sdc_extracted_at'' = Some nullable_datetime"
proof -
  have "dict_get (observe_all E [] samples) ''_sdc_extracted_at'' = None"
    using assms by (simp add: observe_all_absent)
  then have "dict_get (map (\<lambda>(k, types). (k, property_of types)) (observe_all E [] samples))
               ''_sdc_extracted_at'' = None"
    by (simp add: dict_get_map_values)
  then have "dict_get (ensure_replication_key (Some ''_sdc_extracted_at'')
                 (map (\<lambda>(k, types). (k, property_of types)) (observe_all E [] samples)))
               ''_sdc_extracted_at'' = Some nullable_datetime"
    by (simp add: ensure_replication_key_def dict_get_dict_set)
  then show ?thesis
    by (simp add: schema_properties_def ensure_keys_keeps)
qed

lemma build_schema_properties:
  "\<exists>d. build_schema E rk pks samples = VDict d
       \<and> dict_get d ''properties''
           = Some (VDict (map (\<lambda>(k, p). (k, VDict p)) (schema_properties E rk pks samples)))"
  by (simp add: build_schema_def Let_def)

text \<open>
  Claim C9: within one call of \<open>get_records\<close> on a stream whose replication key is
  \<open>_sdc_extracted_at\<close>, every yielded record carries the same extraction timestamp, the
  reading of the clock at the start of the call, whatever the record, the cursor and the
  resources read in between; and the call reads the clock exactly once.
\<close>

theorem extraction_time_computed_once:
  assumes "replication_key cfg = Some ''_sdc_extracted_at''"
  shows "(\<forall>r \<in> set (fst (fst (get_records E cfg starting st))).
            dict_get r ''_sdc_extracted_at''
              = Some (VS (SStr (utcnow_iso E (clock_reads st) @ ''Z''))))
         \<and> clock_reads (snd (get_records E cfg starting st)) = clock_reads st + 1"
proof
  show "\<forall>r \<in> set (fst (fst (get_records E cfg starting st))).
            dict_get r ''_sdc_extracted_at''
              = Some (VS (SStr (utcnow_iso E (clock_reads st) @ ''Z'')))"
  proof
    fix r assume "r \<in> set (fst (fst (get_records E cfg starting st)))"
    from get_records_stamped[OF this] assms show
      "dict_get r ''_sdc_extracted_at''
         = Some (VS (SStr (utcnow_iso E (clock_reads st) @ ''Z'')))"
      by (auto simp: stamp_extracted_at)
  qed
  show "clock_reads (snd (get_records E cfg starting st)) = clock_reads st + 1"
    by (simp add: get_records_def Let_def iter_records_raw_clock)
qed

text \<open>
  Claim C8: with the replication key \<open>_sdc_extracted_at\<close> and no explicit schema,
  every record that \<open>get_records\<close> yields has the field, set to the timestamp of the
  call (the reading of the clock in ISO format, with \<open>Z\<close> appended); the
  \<open>required\<close> list of the schema that is inferred never names the field; and when no
  sampled record has the field, its property is the nullable date-time string.
\<close>

theorem extracted_at_populated_not_required:
  assumes "replication_key cfg = Some ''_sdc_extracted_at''" and "schema_override cfg = None"
  shows
    "(\<forall>r \<in> set (fst (fst (get_records E cfg starting st))).
        dict_get r ''_sdc_extracted_at''
          = Some (VS (SStr (utcnow_iso E (clock_reads st) @ ''Z''))))
     \<and> (fst (schema E cfg st) = Inr (VDict d) \<and> dict_get d ''required'' = Some (VList req)
          \<longrightarrow> VS (SStr ''_sdc_extracted_at'') \<notin> set req)
     \<and> (iter_records_raw E cfg Emit (Some (infer_samples cfg)) st = ((samples, None), st1)
          \<and> (\<forall>r \<in> set samples. dict_get r ''_sdc_extracted_at'' = None)
          \<longrightarrow> (\<exists>d'. schema E cfg st = (Inr (VDict d'), st1)
                 \<and> dict_get d' ''properties''
                     = Some (VDict (map (\<lambda>(k, p). (k, VDict p))
                          (schema_properties E (replication_key cfg) (keys cfg) samples))))
              \<and> dict_get (schema_properties E (replication_key cfg) (keys cfg) samples)
                    ''_sdc_extracted_at'' = Some nullable_datetime)"
proof (intro conjI impI ballI)
  fix r assume "r \<in> set (fst (fst (get_records E cfg starting st)))"
  from get_records_stamped[OF this] assms(1)
  show "dict_get r ''_sdc_extracted_at''
          = Some (VS (SStr (utcnow_iso E (clock_reads st) @ ''Z'')))"
    by (auto simp: stamp_extracted_at)
next
  assume a: "fst (schema E cfg st) = Inr (VDict d) \<and> dict_get d ''required'' = Some (VList req)"
  with schema_inferred[OF assms(2), of E st "VDict d"] obtain samples' where
    "build_schema E (replication_key cfg) (keys cfg) samples' = VDict d" by auto
  with a show "VS (SStr ''_sdc_extracted_at'') \<notin> set req"
    by (blast dest: build_schema_required)
next
  assume a: "iter_records_raw E cfg Emit (Some (infer_samples cfg)) st = ((samples, None), st1)
          \<and> (\<forall>r \<in> set samples. dict_get r ''_sdc_extracted_at'' = None)"
  then have s: "schema E cfg st
      = (Inr (build_schema E (replication_key cfg) (keys cfg) samples), st1)"
    using assms(2) by (simp add: schema_def infer_schema_def)
  with build_schema_properties[of E "replication_key cfg" "keys cfg" samples]
  show "\<exists>d'. schema E cfg st = (Inr (VDict d'), st1)
                 \<and> dict_get d' ''properties''
                     = Some (VDict (map (\<lambda>(k, p). (k, VDict p))
                          (schema_properties E (replication_key cfg) (keys cfg) samples)))"
    by auto
  from a assms(1) show "dict_get (schema_properties E (replication_key cfg) (keys cfg) samples)
                    ''_sdc_extracted_at'' = Some nullable_datetime"
    by (simp add: extracted_at_property_when_absent)
qed

text \<open>
  Claim C5, as stated: every explicit schema override is returned unchanged, without
  inference. It fails for the empty object \<open>{}\<close>: \<open>if explicit:\<close> takes it for absent,
  the schema is inferred and the resource is read.
\<close>

theorem empty_explicit_schema_is_inferred:
  "schema_override (sample_config\<lparr>schema_override := Some (VDict [])\<rparr>) = Some (VDict [])
   \<and> fst (schema sample_env (sample_config\<lparr>schema_override := Some (VDict [])\<rparr>) empty_state)
       \<noteq> Inr (VDict [])
   \<and> io_log (snd (schema sample_env (sample_config\<lparr>schema_override := Some (VDict [])\<rparr>)
                     empty_state))
       = [Read ''sftp://host/data/a.csv'']"
  by code_simp

text \<open>
  Claim C5, amended: an explicit schema override that is not empty is returned
  unchanged, and the state of the stream is left as it was: no path is resolved, no
  resource is read, nothing is sampled. An override that is empty (\<open>{}\<close>, or any
  other false value) counts as absent: the accessor gives what schema inference gives.
\<close>

theorem explicit_schema_returned:
  "(schema_override cfg = Some explicit \<and> truthy explicit
      \<longrightarrow> schema E cfg st = (Inr explicit, st))
   \<and> (schema_override cfg = Some explicit \<and> \<not> truthy explicit
      \<longrightarrow> schema E cfg st = infer_schema E cfg st)
   \<and> (schema_override cfg = Some (VDict [])
      \<longrightarrow> schema E cfg st = infer_schema E cfg st)"
  by (simp add: schema_def)

lemma extracted_run:
  "get_records sample_env extracted_config (Some (SStr ''2024-01-01T00:00:00Z'')) empty_state
     = (([stamped row1, stamped row2, stamped row3], None), read_state\<lparr>clock_reads := 1\<rparr>)"
  by code_simp

lemma extracted_sampling:
  "iter_records_raw sample_env extracted_config Emit (Some (infer_samples extracted_config))
     empty_state = (([row1, row2, row3], None), read_state)"
  by code_simp

lemma extracted_schema_run:
  "schema sample_env extracted_config empty_state = (Inr (VDict extracted_schema), read_state)"
  by code_simp

text \<open>
  C9 on \<open>a.csv\<close>, read with \<open>_sdc_extracted_at\<close> as replication key and a cursor of
  2024-01-01: the three rows are yielded, each with the timestamp of the call.
\<close>

theorem extraction_time_computed_once_witness:
  "replication_key extracted_config = Some ''_sdc_extracted_at''
   \<and> fst (fst (get_records sample_env extracted_config (Some (SStr ''2024-01-01T00:00:00Z''))
                 empty_state))
       = [stamped row1, stamped row2, stamped row3]
   \<and> utcnow_iso sample_env (clock_reads empty_state) @ ''Z'' = ''2024-05-01T12:00:00Z''
   \<and> dict_get (stamped row1) ''_sdc_extracted_at'' = Some (VS (SStr ''2024-05-01T12:00:00Z''))
   \<and> dict_get (stamped row2) ''_sdc_extracted_at'' = Some (VS (SStr ''2024-05-01T12:00:00Z''))
   \<and> dict_get (stamped row3) ''_sdc_extracted_at'' = Some (VS (SStr ''2024-05-01T12:00:00Z''))
   \<and> clock_reads (snd (get_records sample_env extracted_config
                          (Some (SStr ''2024-01-01T00:00:00Z'')) empty_state))
       = clock_reads empty_state + 1"
proof -
  have h: "replication_key extracted_config = Some ''_sdc_extracted_at''"
    by (simp add: extracted_config_def)
  have t: "utcnow_iso sample_env (clock_reads empty_state) @ ''Z'' = ''2024-05-01T12:00:00Z''"
    by (simp add: sample_env_def empty_state_def)
  show ?thesis
    using h t extracted_run
      extraction_time_computed_once[OF h, of sample_env "Some (SStr ''2024-01-01T00:00:00Z'')"
        empty_state]
    by simp
qed

text \<open>
  C8 on the same stream: the rows are yielded with the field, the inferred schema
  requires \<open>id\<close> only, and the field's property is the nullable date-time string.
\<close>

theorem extracted_at_populated_not_required_witness:
  "replication_key extracted_config = Some ''_sdc_extracted_at''
   \<and> schema_override extracted_config = None
   \<and> fst (fst (get_records sample_env extracted_config None empty_state))
       = [stamped row1, stamped row2, stamped row3]
   \<and> utcnow_iso sample_env (clock_reads empty_state) @ ''Z'' = ''2024-05-01T12:00:00Z''
   \<and> dict_get (stamped row1) ''_sdc_extracted_at'' = Some (VS (SStr ''2024-05-01T12:00:00Z''))
   \<and> dict_get (stamped row2) ''_sdc_extracted_at'' = Some (VS (SStr ''2024-05-01T12:00:00Z''))
   \<and> dict_get (stamped row3) ''_sdc_extracted_at'' = Some (VS (SStr ''2024-05-01T12:00:00Z''))
   \<and> fst (schema sample_env extracted_config empty_state) = Inr (VDict extracted_schema)
   \<and> dict_get extracted_schema ''required'' = Some (VList [VS (SStr ''id'')])
   \<and> VS (SStr ''_sdc_extracted_at'') \<notin> set [VS (SStr ''id'')]
   \<and> iter_records_raw sample_env extracted_config Emit (Some (infer_samples extracted_config))
        empty_state = (([row1, row2, row3], None), read_state)
   \<and> dict_get row1 ''_sdc_extracted_at'' = None
   \<and> dict_get row2 ''_sdc_extracted_at'' = None
   \<and> dict_get row3 ''_sdc_extracted_at'' = None
   \<and> dict_get (schema_properties sample_env (replication_key extracted_config)
                 (keys extracted_config) [row1, row2, row3]) ''_sdc_extracted_at''
       = Some nullable_datetime"
proof -
  have h1: "replication_key extracted_config = Some ''_sdc_extracted_at''"
    and h2: "schema_override extracted_config = None"
    by (simp_all add: extracted_config_def sample_config_def)
  have run: "fst (fst (get_records sample_env extracted_config None empty_state))
       = [stamped row1, stamped row2, stamped row3]"
    by code_simp
  have req: "dict_get extracted_schema ''required'' = Some (VList [VS (SStr ''id'')])"
    by (simp add: extracted_schema_def)
  have absent: "\<forall>r \<in> set [row1, row2, row3]. dict_get r ''_sdc_extracted_at'' = None"
    by (simp add: row1_def row2_def row3_def)
  have t: "utcnow_iso sample_env (clock_reads empty_state) @ ''Z'' = ''2024-05-01T12:00:00Z''"
    by (simp add: sample_env_def empty_state_def)
  note th = extracted_at_populated_not_required[OF h1 h2, of sample_env None empty_state
      extracted_schema "[VS (SStr ''id'')]" "[row1, row2, row3]" read_state]
  show ?thesis
    using th h1 h2 run req absent t extracted_sampling extracted_schema_run
    by simp
qed

text \<open>
  The amended C5 on the override \<open>{"type": "object"}\<close>: it is returned, and the state is
  the initial one; and on the override \<open>{}\<close>: the schema is the inferred one.
\<close>

theorem explicit_schema_returned_witness:
  "schema_override explicit_config = Some (VDict [(''type'', VS (SStr ''object''))])
   \<and> truthy (VDict [(''type'', VS (SStr ''object''))])
   \<and> schema sample_env explicit_config empty_state
       = (Inr (VDict [(''type'', VS (SStr ''object''))]), empty_state)
   \<and> schema_override (sample_config\<lparr>schema_override := Some (VDict [])\<rparr>) = Some (VDict [])
   \<and> \<not> truthy (VDict [])
   \<and> schema sample_env (sample_config\<lparr>schema_override := Some (VDict [])\<rparr>) empty_state
       = infer_schema sample_env (sample_config\<lparr>schema_override := Some (VDict [])\<rparr>)
           empty_state"
proof -
  have h: "schema_override explicit_config = Some (VDict [(''type'', VS (SStr ''object''))])
           \<and> truthy (VDict [(''type'', VS (SStr ''object''))])"
    by (simp add: explicit_config_def)
  have e: "schema_override (sample_config\<lparr>schema_override := Some (VDict [])\<rparr>)
             = Some (VDict [])"
    and f: "\<not> truthy (VDict [])"
    by simp_all
  show ?thesis
    using h e f
      explicit_schema_returned[of explicit_config
        "VDict [(''type'', VS (SStr ''object''))]" sample_env empty_state]
      explicit_schema_returned[of "sample_config\<lparr>schema_override := Some (VDict [])\<rparr>"
        "VDict []" sample_env empty_state]
    by blast
qed

end
